theory Spec2Isabelle
  imports Complex_Main
begin

section \<open>Numeric-ID batching: the OBJECTID ranges of \<open>load_counties_data\<close>\<close>

text \<open>
  Python's \<open>range(start, stop, step)\<close> for a positive step, as the list of the values
  the \<open>for\<close> loop visits.
\<close>

function py_range :: "int \<Rightarrow> int \<Rightarrow> int \<Rightarrow> int list" where
  "py_range start stop step =
     (if 0 < step \<and> start < stop then start # py_range (start + step) stop step else [])"
  by pat_completeness auto
termination
  by (relation "measure (\<lambda>(start, stop, step). nat (stop - start))") auto

declare py_range.simps [simp del]

definition batch_size :: int where
  "batch_size = 150"

text \<open>
  The loop header of \<open>load_counties_data\<close>:
  \<open>for batch_start in range(1, max_records + 1, batch_size)\<close> with
  \<open>batch_end = min(batch_start + batch_size - 1, max_records)\<close>.
  Each pair is the range of the where clause
  \<open>OBJECTID >= batch_start AND OBJECTID <= batch_end\<close>.
\<close>

definition batch_ranges :: "int \<Rightarrow> (int \<times> int) list" where
  "batch_ranges max_records =
     map (\<lambda>batch_start. (batch_start, min (batch_start + batch_size - 1) max_records))
       (py_range 1 (max_records + 1) batch_size)"

section \<open>GeometryProjector and FeatureConverter (\<open>api_data_manager.py\<close>)\<close>

text \<open>The Python exceptions the modelled code can raise.\<close>

datatype py_error = ValueError | ZeroDivisionError | IndexError | UnboundLocalError | OverflowError

text \<open>
  Coordinates are Python floats. They are modelled as real numbers, with the one error
  the arithmetic of the projector can raise: \<open>math.exp\<close> raises \<open>OverflowError\<close>
  when its result is beyond the largest float, \<open>(2^53 - 1) * 2^971\<close>. The rounding of
  each operation is not modelled: the code returns the floats next to the values computed
  here, so it can return a latitude of exactly 90.0 or -90.0, and equal latitudes for two
  inputs that are very close. The properties of the projection proved in this theory are
  those that rounding preserves: bounds that include their ends, and monotonicity that
  allows equal values.
\<close>

type_synonym point = "real \<times> real"
type_synonym ring = "point list"

definition max_float :: real where
  "max_float = (2 ^ 53 - 1) * 2 ^ 971"

definition math_exp :: "real \<Rightarrow> py_error + real" where
  "math_exp t = (if max_float < exp t then Inl OverflowError else Inr (exp t))"

definition earth_radius :: real where
  "earth_radius = 6378137"

text \<open>\<open>_web_mercator_to_latlon\<close>: returns \<open>[lon, lat]\<close>, or raises in \<open>math.exp\<close>.\<close>

definition web_mercator_to_latlon :: "real \<Rightarrow> real \<Rightarrow> py_error + point" where
  "web_mercator_to_latlon x y =
     (let lon = (x / earth_radius) * (180 / pi) in
      case math_exp (y / earth_radius) of
        Inl e \<Rightarrow> Inl e
      | Inr ex \<Rightarrow> Inr (lon, (2 * arctan ex - pi / 2) * (180 / pi)))"

text \<open>The point the projector returns for \<open>(x, y)\<close> when \<open>math.exp\<close> does not raise.\<close>

definition degrees :: "point \<Rightarrow> point" where
  "degrees p = ((fst p / earth_radius) * (180 / pi),
                (2 * arctan (exp (snd p / earth_radius)) - pi / 2) * (180 / pi))"

text \<open>
  A GeoJSON geometry \<open>{'type': ..., 'coordinates': ...}\<close>: the coordinates of a
  \<open>Polygon\<close> are a list of rings, those of a \<open>MultiPolygon\<close> a list of polygons.
\<close>

datatype geometry = Polygon "ring list" | MultiPolygon "ring list list"

text \<open>
  A loop or comprehension that builds a list from the results of a call that may raise:
  the first exception ends it.
\<close>

fun collect :: "('a \<Rightarrow> py_error + 'b) \<Rightarrow> 'a list \<Rightarrow> py_error + 'b list" where
  "collect f [] = Inr []"
| "collect f (x # xs) =
     (case f x of
        Inl e \<Rightarrow> Inl e
      | Inr y \<Rightarrow> (case collect f xs of Inl e \<Rightarrow> Inl e | Inr ys \<Rightarrow> Inr (y # ys)))"

text \<open>
  \<open>_convert_arcgis_geometry_to_geojson\<close>. The argument is \<open>None\<close> when the
  geometry is missing, empty or has no \<open>'rings'\<close> key, and \<open>Some rings\<close> otherwise.
  All rings are converted first, each by
  \<open>[self._web_mercator_to_latlon(x, y) for x, y in ring]\<close>.
\<close>

definition convert_arcgis_geometry_to_geojson :: "ring list option \<Rightarrow> py_error + geometry" where
  "convert_arcgis_geometry_to_geojson arcgis_geometry =
     (case arcgis_geometry of
        None \<Rightarrow> Inr (Polygon [])
      | Some rings \<Rightarrow>
          (case collect (collect (\<lambda>(x, y). web_mercator_to_latlon x y)) rings of
             Inl e \<Rightarrow> Inl e
           | Inr converted_rings \<Rightarrow>
               if length converted_rings = 1 then Inr (Polygon converted_rings)
               else
                 (let polygons = map (\<lambda>ring. [ring])
                                   (filter (\<lambda>ring. 4 \<le> length ring) converted_rings) in
                  if length polygons = 1 then Inr (Polygon (hd polygons))
                  else Inr (MultiPolygon polygons))))"

text \<open>
  One element of the \<open>features\<close> list of a response: the attributes the county queries
  ask for (\<open>outFields = NAME, STATE, POP100\<close>; \<open>None\<close> for an absent key) and the
  geometry.
\<close>

record remote_record =
  attr_NAME :: "string option"
  attr_STATE :: "string option"
  attr_POP100 :: "real option"
  arcgis_geometry :: "ring list option"

record feature =
  NAME :: string
  STATE :: string
  POP100 :: real
  geometry :: geometry

text \<open>
  \<open>_convert_to_geojson(api_data, 'counties')\<close>, the call both county loaders make;
  the result is the \<open>features\<close> list of the feature collection. The geometry of a
  feature is converted before its properties are read.
\<close>

definition convert_feature :: "remote_record \<Rightarrow> py_error + feature" where
  "convert_feature f =
     (case convert_arcgis_geometry_to_geojson (arcgis_geometry f) of
        Inl e \<Rightarrow> Inl e
      | Inr g \<Rightarrow>
          Inr \<lparr> NAME = (case attr_NAME f of Some n \<Rightarrow> n | None \<Rightarrow> []),
                STATE = (case attr_STATE f of Some c \<Rightarrow> c | None \<Rightarrow> []),
                POP100 = (case attr_POP100 f of Some p \<Rightarrow> p | None \<Rightarrow> 0),
                geometry = g \<rparr>)"

definition convert_to_geojson :: "remote_record list \<Rightarrow> py_error + feature list" where
  "convert_to_geojson api_features = collect convert_feature api_features"

section \<open>AcquisitionClient: requests, responses and the two batching loops\<close>

text \<open>
  The requests the county loaders send, by their \<open>where\<close> clause:
  \<open>1=1\<close> with \<open>returnCountOnly\<close>, \<open>OBJECTID >= a AND OBJECTID <= b\<close>, and
  \<open>STATE = 'fips'\<close>.
\<close>

datatype query = CountQuery | ObjectIdQuery int int | StateQuery string

text \<open>
  The decoded JSON body of a response, as far as the loaders read it:
  \<open>'error' in data\<close>, \<open>data['features']\<close> (\<open>None\<close> when the key is absent) and
  \<open>data.get('count')\<close>.
\<close>

record json_body =
  has_error :: bool
  features :: "remote_record list option"
  count_field :: "int option"

text \<open>
  What \<open>requests.get\<close>, \<open>raise_for_status\<close> and \<open>json()\<close> give: one of the three
  exception classes the loaders catch, or a decoded body.
\<close>

datatype response = Timeout | RequestException | OtherException | Json json_body

text \<open>
  The observable effects, in order: a request sent, \<open>time.sleep(n)\<close>, and the printed
  summary line with the two counters (successful, failed).
\<close>

datatype event = Request query | Sleep nat | Summary nat nat

text \<open>
  The remote service: its answer to a request may depend on everything that happened
  before.
\<close>

type_synonym network = "event list \<Rightarrow> query \<Rightarrow> response"

text \<open>The local variables of a loader that its loop updates, and the effects so far.\<close>

record acq =
  all_features :: "remote_record list"
  successful :: nat
  failed :: nat
  events :: "event list"

definition max_retries :: nat where
  "max_retries = 3"

text \<open>
  The \<open>while retry_count < max_retries and not batch_success\<close> loop of
  \<open>load_counties_data\<close> for one batch. A successful batch and both \<open>break\<close>s leave the
  loop at once; the three \<open>except\<close> clauses have the same body.
\<close>

function retry_loop :: "network \<Rightarrow> query \<Rightarrow> nat \<Rightarrow> acq \<Rightarrow> acq" where
  "retry_loop net q retry_count a =
     (if retry_count < max_retries then
        (let resp = net (events a) q;
             a1 = a\<lparr>events := events a @ [Request q]\<rparr>
         in case resp of
              Json batch_data \<Rightarrow>
                if has_error batch_data then
                  (if retry_count < max_retries - 1
                   then retry_loop net q (retry_count + 1) (a1\<lparr>events := events a1 @ [Sleep 1]\<rparr>)
                   else a1\<lparr>failed := failed a1 + 1\<rparr>)
                else
                  (case features batch_data of
                     Some batch_features \<Rightarrow>
                       if batch_features \<noteq> []
                       then a1\<lparr>all_features := all_features a1 @ batch_features,
                              successful := successful a1 + 1\<rparr>
                       else a1\<lparr>failed := failed a1 + 1\<rparr>
                   | None \<Rightarrow> a1\<lparr>failed := failed a1 + 1\<rparr>)
            | _ \<Rightarrow>
                (if retry_count + 1 < max_retries
                 then retry_loop net q (retry_count + 1) (a1\<lparr>events := events a1 @ [Sleep 2]\<rparr>)
                 else retry_loop net q (retry_count + 1) (a1\<lparr>failed := failed a1 + 1\<rparr>)))
      else a)"
  by pat_completeness auto
termination
  by (relation "measure (\<lambda>(net, q, retry_count, a). max_retries - retry_count)") auto

declare retry_loop.simps [simp del]

text \<open>The \<open>for batch_start in range(...)\<close> loop over the OBJECTID ranges.\<close>

fun fetch_batches :: "network \<Rightarrow> (int \<times> int) list \<Rightarrow> acq \<Rightarrow> acq" where
  "fetch_batches net [] a = a"
| "fetch_batches net ((batch_start, batch_end) # rest) a =
     fetch_batches net rest (retry_loop net (ObjectIdQuery batch_start batch_end) 0 a)"

text \<open>
  The body of the \<open>for i, fips_code in enumerate(state_fips_codes)\<close> loop of
  \<open>load_counties_for_region\<close>: one request, no retry.
\<close>

definition fetch_state :: "network \<Rightarrow> string \<Rightarrow> acq \<Rightarrow> acq" where
  "fetch_state net fips_code a =
     (let q = StateQuery fips_code;
          resp = net (events a) q;
          a1 = a\<lparr>events := events a @ [Request q]\<rparr>
      in case resp of
           Json state_data \<Rightarrow>
             if has_error state_data then a1\<lparr>failed := failed a1 + 1\<rparr>
             else
               (case features state_data of
                  Some state_features \<Rightarrow>
                    if state_features \<noteq> []
                    then a1\<lparr>all_features := all_features a1 @ state_features,
                           successful := successful a1 + 1\<rparr>
                    else a1\<lparr>failed := failed a1 + 1\<rparr>
                | None \<Rightarrow> a1\<lparr>failed := failed a1 + 1\<rparr>)
         | _ \<Rightarrow> a1\<lparr>failed := failed a1 + 1\<rparr>)"

fun fetch_states :: "network \<Rightarrow> string list \<Rightarrow> acq \<Rightarrow> acq" where
  "fetch_states net [] a = a"
| "fetch_states net (fips_code # rest) a = fetch_states net rest (fetch_state net fips_code a)"

section \<open>The manager object and the region cache\<close>

text \<open>The regional definitions of \<open>data_manager.py\<close>.\<close>

definition REGIONS :: "(string \<times> string list) list" where
  "REGIONS =
     [(''West'', [''Washington'', ''Montana'', ''Idaho'', ''Oregon'', ''Wyoming'',
                  ''California'', ''Nevada'', ''Utah'', ''Colorado'', ''Alaska'', ''Hawaii'']),
      (''Midwest'', [''North Dakota'', ''South Dakota'', ''Nebraska'', ''Kansas'',
                     ''Minnesota'', ''Iowa'', ''Missouri'', ''Wisconsin'', ''Illinois'',
                     ''Indiana'', ''Michigan'', ''Ohio'']),
      (''Northeast'', [''Pennsylvania'', ''Maryland'', ''Delaware'', ''New Jersey'',
                       ''Connecticut'', ''Rhode Island'', ''Massachusetts'', ''New York'',
                       ''Vermont'', ''New Hampshire'', ''Maine'']),
      (''Southeast'', [''District of Columbia'', ''Virginia'', ''West Virginia'', ''Kentucky'',
                       ''Arkansas'', ''Louisiana'', ''Mississippi'', ''Alabama'', ''Georgia'',
                       ''Florida'', ''South Carolina'', ''North Carolina'', ''Tennessee'']),
      (''Southwest'', [''Oklahoma'', ''Texas'', ''New Mexico'', ''Arizona''])]"

text \<open>\<open>get_states_in_region\<close>: \<open>REGIONS.get(region, set())\<close>.\<close>

definition get_states_in_region :: "string \<Rightarrow> string list" where
  "get_states_in_region region =
     (case map_of REGIONS region of Some states \<Rightarrow> states | None \<Rightarrow> [])"

text \<open>A feature of \<open>states_data\<close>, as \<open>_convert_to_geojson(api_data, 'states')\<close> builds it.\<close>

record state_feature =
  st_NAME :: string
  st_STATE_ABBR :: string
  st_STATE :: string
  st_geometry :: geometry

text \<open>
  The fields of \<open>APIDataManager\<close>. Feature collections are objects: \<open>heap\<close> holds the
  collections created so far, and \<open>counties_data\<close> and the cache \<open>_counties_by_region\<close>
  hold references (positions in \<open>heap\<close>), so that two fields can name the same object.
  \<open>trace\<close> is the effects so far.
\<close>

record manager =
  states_data :: "state_feature list option"
  counties_data :: "nat option"
  counties_by_region :: "string \<rightharpoonup> nat"
  current_region :: "string option"
  heap :: "feature list list"
  trace :: "event list"

text \<open>
  \<open>load_counties_data\<close>, called without a progress callback. Every exception is caught
  by the outer \<open>except\<close>, which returns \<open>False\<close>: the explicit ones and one
  raised while the records are converted, after the summary is printed and before
  \<open>counties_data\<close> is assigned.
\<close>

definition load_counties_data :: "network \<Rightarrow> manager \<Rightarrow> bool \<times> manager" where
  "load_counties_data net m =
     (let count_response = net (trace m) CountQuery;
          m1 = m\<lparr>trace := trace m @ [Request CountQuery]\<rparr>
      in case count_response of
           Json count_data \<Rightarrow>
             if has_error count_data then (False, m1)
             else
               (let total_records = (case count_field count_data of Some c \<Rightarrow> c | None \<Rightarrow> 0) in
                if total_records = 0 then (False, m1)
                else
                  (let a = fetch_batches net (batch_ranges total_records)
                             \<lparr>all_features = [], successful = 0, failed = 0, events = trace m1\<rparr>;
                       evs = events a @ [Summary (successful a) (failed a)]
                   in if all_features a = [] then (False, m1\<lparr>trace := evs\<rparr>)
                      else
                        (case convert_to_geojson (all_features a) of
                           Inl e \<Rightarrow> (False, m1\<lparr>trace := evs\<rparr>)
                         | Inr collection \<Rightarrow>
                             (True, m1\<lparr>counties_data := Some (length (heap m1)),
                                         heap := heap m1 @ [collection],
                                         trace := evs\<rparr>))))
         | _ \<Rightarrow> (False, m1))"

text \<open>
  The FIPS codes of the states of the region, in the order of \<open>states_data\<close>, without
  Puerto Rico (72) and the Virgin Islands (78).
\<close>

definition state_fips_codes :: "state_feature list \<Rightarrow> string list \<Rightarrow> string list" where
  "state_fips_codes states states_in_region =
     map st_STATE
       (filter (\<lambda>f. st_NAME f \<in> set states_in_region \<and> st_STATE f \<noteq> [] \<and>
                     st_STATE f \<notin> set [''72'', ''78''])
          states)"

text \<open>
  \<open>load_counties_for_region\<close>, called without a progress callback. With
  \<open>states_data\<close> still \<open>None\<close> the subscript raises, which the outer \<open>except\<close>
  catches, as it does an exception raised while the records are converted.
\<close>

definition load_counties_for_region :: "network \<Rightarrow> string \<Rightarrow> manager \<Rightarrow> bool \<times> manager" where
  "load_counties_for_region net region m =
     (case counties_by_region m region of
        Some cached \<Rightarrow> (True, m\<lparr>counties_data := Some cached, current_region := Some region\<rparr>)
      | None \<Rightarrow>
          (let states_in_region = get_states_in_region region in
           if states_in_region = [] then (False, m)
           else
             (case states_data m of
                None \<Rightarrow> (False, m)
              | Some states \<Rightarrow>
                  (let codes = state_fips_codes states states_in_region in
                   if codes = [] then (False, m)
                   else
                     (let a = fetch_states net codes
                                \<lparr>all_features = [], successful = 0, failed = 0, events = trace m\<rparr>;
                          evs = events a @ [Summary (successful a) (failed a)]
                      in if all_features a = [] then (False, m\<lparr>trace := evs\<rparr>)
                         else
                           (case convert_to_geojson (all_features a) of
                              Inl e \<Rightarrow> (False, m\<lparr>trace := evs\<rparr>)
                            | Inr collection \<Rightarrow>
                                (True, m\<lparr>counties_data := Some (length (heap m)),
                                            counties_by_region :=
                                              (counties_by_region m)(region \<mapsto> length (heap m)),
                                            current_region := Some region,
                                            heap := heap m @ [collection],
                                            trace := evs\<rparr>)))))))"

section \<open>SpatialIndex: \<open>_point_in_polygon\<close> (\<open>main_application.py\<close>)\<close>

text \<open>
  The \<open>for i in range(1, n + 1)\<close> loop. The list holds the vertices
  \<open>polygon_coords[i % n]\<close> still to visit, the pair is \<open>(p1x, p1y)\<close>, and \<open>xinters\<close>
  is \<open>None\<close> until its first assignment: the variable is assigned only where
  \<open>p1y != p2y\<close> and keeps its value from one edge to the next.
\<close>

fun ray_loop :: "real \<Rightarrow> real \<Rightarrow> point list \<Rightarrow> point \<Rightarrow> real option \<Rightarrow> bool \<Rightarrow> py_error + bool" where
  "ray_loop x y [] p1 xinters inside = Inr inside"
| "ray_loop x y ((p2x, p2y) # rest) (p1x, p1y) xinters inside =
     (if y > min p1y p2y \<and> y \<le> max p1y p2y \<and> x \<le> max p1x p2x then
        (let xinters' = (if p1y \<noteq> p2y
                         then Some ((y - p1y) * (p2x - p1x) / (p2y - p1y) + p1x)
                         else xinters)
         in if p1x = p2x then ray_loop x y rest (p2x, p2y) xinters' (\<not> inside)
            else (case xinters' of
                    None \<Rightarrow> Inl UnboundLocalError
                  | Some xi \<Rightarrow>
                      ray_loop x y rest (p2x, p2y) xinters' (if x \<le> xi then \<not> inside else inside)))
      else ray_loop x y rest (p2x, p2y) xinters inside)"

text \<open>
  \<open>_point_in_polygon\<close>: the length check, the bounding box, then the loop over the
  vertices \<open>polygon_coords[1], ..., polygon_coords[n - 1], polygon_coords[0]\<close>.
\<close>

definition point_in_polygon :: "real \<Rightarrow> real \<Rightarrow> point list \<Rightarrow> py_error + bool" where
  "point_in_polygon x y polygon_coords =
     (case polygon_coords of
        [] \<Rightarrow> Inr False
      | p # ps \<Rightarrow>
          if length polygon_coords < 3 then Inr False
          else
            (let min_x = fold min (map fst ps) (fst p); min_y = fold min (map snd ps) (snd p);
                 max_x = fold max (map fst ps) (fst p); max_y = fold max (map snd ps) (snd p)
             in if x < min_x \<or> x > max_x \<or> y < min_y \<or> y > max_y then Inr False
                else ray_loop x y (ps @ [p]) p None False))"

text \<open>
  The rule as the documentation words it, for one edge: the point's y strictly between
  the y-extremes of the edge, and the point's x at or left of the intersection of the ray
  with the edge, a vertical edge toggling whenever the y-test passes.
\<close>

definition documented_toggle :: "real \<Rightarrow> real \<Rightarrow> point \<times> point \<Rightarrow> bool" where
  "documented_toggle x y e =
     (case e of ((p1x, p1y), (p2x, p2y)) \<Rightarrow>
        min p1y p2y < y \<and> y < max p1y p2y \<and>
        (p1x = p2x \<or> x \<le> (y - p1y) * (p2x - p1x) / (p2y - p1y) + p1x))"

text \<open>The test the loop body makes for the edge from \<open>p1\<close> to \<open>p2\<close>.\<close>

definition edge_toggles :: "real \<Rightarrow> real \<Rightarrow> point \<times> point \<Rightarrow> bool" where
  "edge_toggles x y e =
     (case e of ((p1x, p1y), (p2x, p2y)) \<Rightarrow>
        min p1y p2y < y \<and> y \<le> max p1y p2y \<and> x \<le> max p1x p2x \<and>
        (p1x = p2x \<or> x \<le> (y - p1y) * (p2x - p1x) / (p2y - p1y) + p1x))"

text \<open>The edges of a ring, the last one from the last vertex back to the first.\<close>

definition ring_edges :: "point list \<Rightarrow> (point \<times> point) list" where
  "ring_edges polygon_coords = zip polygon_coords (rotate1 polygon_coords)"

definition in_bounding_box :: "real \<Rightarrow> real \<Rightarrow> point list \<Rightarrow> bool" where
  "in_bounding_box x y polygon_coords =
     ((\<exists>p \<in> set polygon_coords. fst p \<le> x) \<and> (\<exists>p \<in> set polygon_coords. x \<le> fst p) \<and>
      (\<exists>p \<in> set polygon_coords. snd p \<le> y) \<and> (\<exists>p \<in> set polygon_coords. y \<le> snd p))"

text \<open>The parity rule with a given edge test, after the length check and the bounding box.\<close>

definition parity_rule :: "(real \<Rightarrow> real \<Rightarrow> point \<times> point \<Rightarrow> bool) \<Rightarrow> real \<Rightarrow> real \<Rightarrow> point list \<Rightarrow> bool" where
  "parity_rule toggles x y polygon_coords =
     (3 \<le> length polygon_coords \<and> in_bounding_box x y polygon_coords \<and>
      odd (length (filter (toggles x y) (ring_edges polygon_coords))))"

section \<open>Classifier: \<open>_classify_data\<close> (\<open>chloropleth_generator.py\<close>)\<close>

text \<open>Python's \<open>min\<close> and \<open>max\<close> of a list raise \<open>ValueError\<close> on the empty list.\<close>

definition py_min :: "real list \<Rightarrow> py_error + real" where
  "py_min xs = (case xs of [] \<Rightarrow> Inl ValueError | x # rest \<Rightarrow> Inr (fold min rest x))"

definition py_max :: "real list \<Rightarrow> py_error + real" where
  "py_max xs = (case xs of [] \<Rightarrow> Inl ValueError | x # rest \<Rightarrow> Inr (fold max rest x))"

text \<open>
  \<open>numpy.percentile(a, q)\<close> with its default method (linear interpolation): the value
  at the position \<open>q / 100 * (n - 1)\<close> of the sorted data, interpolated between the two
  neighbours. numpy refuses a \<open>q\<close> outside 0..100 and, in its current versions, an
  empty array (older versions give \<open>nan\<close> there, after which \<open>max\<close> of the empty
  list raises in \<open>_classify_data\<close> all the same).
\<close>

definition np_percentile :: "real list \<Rightarrow> real \<Rightarrow> py_error + real" where
  "np_percentile a q =
     (if q < 0 \<or> 100 < q then Inl ValueError
      else if a = [] then Inl IndexError
      else
        (let s = sort a;
             virtual_index = q / 100 * (real (length s) - 1);
             previous_index = nat \<lfloor>virtual_index\<rfloor>;
             next_index = min (previous_index + 1) (length s - 1);
             gamma = virtual_index - real previous_index
         in Inr (s ! previous_index + gamma * (s ! next_index - s ! previous_index))))"

text \<open>
  The loop \<open>for i in range(1, num_classes): breaks.append(np.percentile(...))\<close>, over the
  values of \<open>i\<close> still to visit.
\<close>

fun quantile_loop :: "real list \<Rightarrow> int \<Rightarrow> int list \<Rightarrow> real list \<Rightarrow> py_error + real list" where
  "quantile_loop sorted_data num_classes [] breaks = Inr breaks"
| "quantile_loop sorted_data num_classes (i # rest) breaks =
     (let percentile = (real_of_int i / real_of_int num_classes) * 100 in
      case np_percentile sorted_data percentile of
        Inl e \<Rightarrow> Inl e
      | Inr v \<Rightarrow> quantile_loop sorted_data num_classes rest (breaks @ [v]))"

text \<open>The branch \<open>method == "Quantile"\<close>.\<close>

definition classify_quantile :: "real list \<Rightarrow> int \<Rightarrow> py_error + real list" where
  "classify_quantile sorted_data num_classes =
     (case quantile_loop sorted_data num_classes [1..num_classes - 1] [] of
        Inl e \<Rightarrow> Inl e
      | Inr breaks \<Rightarrow>
          (case py_max sorted_data of Inl e \<Rightarrow> Inl e | Inr m \<Rightarrow> Inr (breaks @ [m])))"

text \<open>Python's \<open>int(x)\<close> of a float truncates towards zero.\<close>

definition py_int :: "real \<Rightarrow> int" where
  "py_int r = (if 0 \<le> r then \<lfloor>r\<rfloor> else \<lceil>r\<rceil>)"

text \<open>
  \<open>_jenks_breaks\<close>. In the loop \<open>1 \<le> i < num_classes\<close>, so \<open>idx\<close> is never negative
  and \<open>sorted_data[idx]\<close> is read inside the list.
\<close>

definition jenks_breaks :: "real list \<Rightarrow> int \<Rightarrow> py_error + real list" where
  "jenks_breaks data num_classes =
     (let sorted_data = sort data;
          n = length sorted_data;
          breaks = concat (map (\<lambda>i. let idx = py_int ((real_of_int i / real_of_int num_classes) * real n)
                                      in if idx < int n then [sorted_data ! nat idx] else [])
                             [1..num_classes - 1])
      in case py_max sorted_data of Inl e \<Rightarrow> Inl e | Inr m \<Rightarrow> Inr (breaks @ [m]))"

text \<open>
  \<open>_classify_data\<close>. The last branch calls \<open>_classify_data\<close> again with the method
  \<open>"Quantile"\<close>, which sorts the data and takes the first branch.
\<close>

definition classify_data :: "real list \<Rightarrow> string \<Rightarrow> int \<Rightarrow> py_error + real list" where
  "classify_data data method num_classes =
     (let sorted_data = sort data in
      if method = ''Quantile'' then classify_quantile sorted_data num_classes
      else if method = ''Equal Interval'' then
        (case py_min sorted_data of
           Inl e \<Rightarrow> Inl e
         | Inr min_val \<Rightarrow>
             (case py_max sorted_data of
                Inl e \<Rightarrow> Inl e
              | Inr max_val \<Rightarrow>
                  if num_classes = 0 then Inl ZeroDivisionError
                  else
                    (let interval = (max_val - min_val) / real_of_int num_classes in
                     Inr (map (\<lambda>i. min_val + interval * (real_of_int i + 1)) [0..num_classes - 1]))))
      else if method = ''Natural Breaks (Jenks)'' then jenks_breaks sorted_data num_classes
      else classify_quantile (sort data) num_classes)"

text \<open>
  The caller, \<open>_apply_chloropleth\<close>, up to the computation of the breaks: it keeps the
  positive populations and returns early (\<open>None\<close> here) when none is left; otherwise
  it classifies them into 5 classes.
\<close>

definition apply_chloropleth :: "real list \<Rightarrow> string \<Rightarrow> (py_error + real list) option" where
  "apply_chloropleth populations method =
     (let valid_populations = filter (\<lambda>p. p > 0) populations in
      if valid_populations = [] then None
      else Some (classify_data valid_populations method 5))"

text \<open>
  The documented value at the fraction \<open>p\<close> of a sorted sample, by linear interpolation:
  the position \<open>p * (m - 1)\<close> in the sample of \<open>m\<close> values lies between two
  neighbours, whose values are weighted by its distances to them.
\<close>

definition interpolated :: "real list \<Rightarrow> real \<Rightarrow> real" where
  "interpolated sorted_sample p =
     (let position = p * real (length sorted_sample - 1);
          below = nat \<lfloor>position\<rfloor>;
          above = min (below + 1) (length sorted_sample - 1);
          weight = position - real below
      in (1 - weight) * sorted_sample ! below + weight * sorted_sample ! above)"

section \<open>The documented retry policy and the outcomes of the partitions\<close>

text \<open>
  The retry policy in the documentation's words, for a given number of attempts: an
  error response, a timeout or a transport failure is retried after a fixed back-off;
  once the attempts are used up the batch is marked failed; any other response settles
  the batch at once.
\<close>

definition retryable :: "response \<Rightarrow> bool" where
  "retryable r = (case r of Json body \<Rightarrow> has_error body | _ \<Rightarrow> True)"

definition backoff :: "response \<Rightarrow> nat" where
  "backoff r = (case r of Json body \<Rightarrow> 1 | _ \<Rightarrow> 2)"

definition settle :: "response \<Rightarrow> acq \<Rightarrow> acq" where
  "settle r a =
     (case r of
        Json body \<Rightarrow>
          (case features body of
             Some fs \<Rightarrow>
               if fs \<noteq> []
               then a\<lparr>all_features := all_features a @ fs, successful := successful a + 1\<rparr>
               else a\<lparr>failed := failed a + 1\<rparr>
           | None \<Rightarrow> a\<lparr>failed := failed a + 1\<rparr>)
      | _ \<Rightarrow> a\<lparr>failed := failed a + 1\<rparr>)"

fun documented_retry :: "nat \<Rightarrow> network \<Rightarrow> query \<Rightarrow> acq \<Rightarrow> acq" where
  "documented_retry 0 net q a = a"
| "documented_retry (Suc attempts_left) net q a =
     (let r = net (events a) q;
          a1 = a\<lparr>events := events a @ [Request q]\<rparr>
      in if retryable r then
           (if attempts_left = 0 then a1\<lparr>failed := failed a1 + 1\<rparr>
            else documented_retry attempts_left net q (a1\<lparr>events := events a1 @ [Sleep (backoff r)]\<rparr>))
         else settle r a1)"

text \<open>The loop variables as each loader initialises them, with the effects so far.\<close>

definition fresh :: "event list \<Rightarrow> acq" where
  "fresh evs = \<lparr>all_features = [], successful = 0, failed = 0, events = evs\<rparr>"

text \<open>
  What each partition yields, in order: the records one partition contributes when the
  code of the loop body runs on it alone, after the effects of the partitions before it.
  A partition that yields no record is a failed one.
\<close>

fun batch_outcomes :: "network \<Rightarrow> event list \<Rightarrow> (int \<times> int) list \<Rightarrow> remote_record list list" where
  "batch_outcomes net evs [] = []"
| "batch_outcomes net evs ((batch_start, batch_end) # rest) =
     (let a = retry_loop net (ObjectIdQuery batch_start batch_end) 0 (fresh evs)
      in all_features a # batch_outcomes net (events a) rest)"

fun state_outcomes :: "network \<Rightarrow> event list \<Rightarrow> string list \<Rightarrow> remote_record list list" where
  "state_outcomes net evs [] = []"
| "state_outcomes net evs (fips_code # rest) =
     (let a = fetch_state net fips_code (fresh evs)
      in all_features a # state_outcomes net (events a) rest)"

text \<open>
  Adding what one partition yields to the loop variables: its records, one more
  successful partition if it yields any record and one more failed partition otherwise.
\<close>

definition merge_outcome :: "acq \<Rightarrow> acq \<Rightarrow> acq" where
  "merge_outcome a b =
     \<lparr>all_features = all_features a @ all_features b,
      successful = successful a + (if all_features b = [] then 0 else 1),
      failed = failed a + (if all_features b = [] then 1 else 0),
      events = events b\<rparr>"

definition is_request :: "event \<Rightarrow> bool" where
  "is_request e = (case e of Request q \<Rightarrow> True | _ \<Rightarrow> False)"

section \<open>A concrete run: the Southwest region with one state unreachable\<close>

definition southwest_states :: "state_feature list" where
  "southwest_states =
     [\<lparr>st_NAME = ''Oklahoma'', st_STATE_ABBR = ''OK'', st_STATE = ''40'', st_geometry = Polygon []\<rparr>,
      \<lparr>st_NAME = ''Texas'', st_STATE_ABBR = ''TX'', st_STATE = ''48'', st_geometry = Polygon []\<rparr>,
      \<lparr>st_NAME = ''New Mexico'', st_STATE_ABBR = ''NM'', st_STATE = ''35'', st_geometry = Polygon []\<rparr>,
      \<lparr>st_NAME = ''Arizona'', st_STATE_ABBR = ''AZ'', st_STATE = ''04'', st_geometry = Polygon []\<rparr>]"

definition county :: "string \<Rightarrow> remote_record" where
  "county fips_code =
     \<lparr>attr_NAME = Some ''County'', attr_STATE = Some fips_code, attr_POP100 = Some 1000,
      arcgis_geometry = None\<rparr>"

text \<open>The feature the converter makes of such a county.\<close>

definition county_feature :: "string \<Rightarrow> feature" where
  "county_feature fips_code =
     \<lparr>NAME = ''County'', STATE = fips_code, POP100 = 1000, geometry = Polygon []\<rparr>"

text \<open>
  A service that answers every request for Texas (48) and for the OBJECTID range from
  151 with a timeout, every other state or range with one county, and the count request
  with 320.
\<close>

definition texas_down :: network where
  "texas_down evs q =
     (case q of
        CountQuery \<Rightarrow> Json \<lparr>has_error = False, features = None, count_field = Some 320\<rparr>
      | ObjectIdQuery batch_start batch_end \<Rightarrow>
          if batch_start = 151 then Timeout
          else Json \<lparr>has_error = False, features = Some [county ''00''], count_field = None\<rparr>
      | StateQuery fips_code \<Rightarrow>
          if fips_code = ''48'' then Timeout
          else Json \<lparr>has_error = False, features = Some [county fips_code], count_field = None\<rparr>)"

definition all_down :: network where
  "all_down evs q = Timeout"

text \<open>A service that answers every request with an \<open>error\<close> object.\<close>

definition erroring :: network where
  "erroring evs q = Json \<lparr>has_error = True, features = None, count_field = None\<rparr>"

text \<open>
  A county whose ring lies at \<open>y = 10^10\<close>, beyond the range of \<open>math.exp\<close>, and a
  service that answers every state and every OBJECTID range with one such county.
\<close>

definition far_county :: "string \<Rightarrow> remote_record" where
  "far_county fips_code =
     \<lparr>attr_NAME = Some ''County'', attr_STATE = Some fips_code, attr_POP100 = Some 1000,
      arcgis_geometry =
        Some [[(0, 10000000000), (10, 10000000000), (10, 10000000010), (0, 10000000000)]]\<rparr>"

definition out_of_range :: network where
  "out_of_range evs q =
     (case q of
        CountQuery \<Rightarrow> Json \<lparr>has_error = False, features = None, count_field = Some 320\<rparr>
      | ObjectIdQuery batch_start batch_end \<Rightarrow>
          Json \<lparr>has_error = False, features = Some [far_county ''00''], count_field = None\<rparr>
      | StateQuery fips_code \<Rightarrow>
          Json \<lparr>has_error = False, features = Some [far_county fips_code], count_field = None\<rparr>)"

definition states_loaded :: manager where
  "states_loaded =
     \<lparr>states_data = Some southwest_states, counties_data = None, counties_by_region = Map.empty,
      current_region = None, heap = [], trace = []\<rparr>"

section \<open>Coverage of the OBJECTID ranges\<close>

lemma py_range_cover:
  "0 < step \<Longrightarrow>
   concat (map (\<lambda>s. [s..min (s + step - 1) n]) (py_range a (n + 1) step)) = [a..n]"
proof (induction a "n + 1" step rule: py_range.induct)
  case (1 start step)
  show ?case
  proof (cases "start < n + 1")
    case False
    then show ?thesis by (simp add: py_range.simps)
  next
    case True
    note lt = this
    have ih: "concat (map (\<lambda>s. [s..min (s + step - 1) n]) (py_range (start + step) (n + 1) step))
               = [start + step..n]"
      using 1 lt by simp
    show ?thesis
    proof (cases "start + step - 1 < n")
      case True
      have "[start..n] = [start..(start + step) - 1] @ [start + step..n]"
        using True 1(2) by (intro upto_split1) auto
      then show ?thesis using lt 1(2) ih True
        by (subst py_range.simps) (simp add: min_def)
    next
      case False
      then show ?thesis using lt 1(2) ih
        by (subst py_range.simps) (simp add: min_def)
    qed
  qed
qed

lemma py_range_bounds:
  "s \<in> set (py_range a b step) \<Longrightarrow> a \<le> s \<and> s < b"
proof (induction a b step rule: py_range.induct)
  case (1 start stop step)
  show ?case
  proof (cases "0 < step \<and> start < stop")
    case True
    then have "s = start \<or> s \<in> set (py_range (start + step) stop step)"
      using 1(2) by (subst (asm) py_range.simps) simp
    then show ?thesis using 1(1) True by auto
  next
    case False
    then show ?thesis using 1(2) by (subst (asm) py_range.simps) simp
  qed
qed

lemma batch_ranges_320: "batch_ranges 320 = [(1, 150), (151, 300), (301, 320)]"
  by (simp add: batch_ranges_def batch_size_def py_range.simps)

text \<open>
  Claim C2. The OBJECTID ranges of the numeric-ID batching, read in order, list the
  identifiers 1, ..., \<open>max_records\<close> each exactly once (no gap, no overlap); every
  range holds at most 150 identifiers and a range that stops before \<open>max_records\<close>
  holds exactly 150; for 320 records the ranges are [1,150], [151,300], [301,320].
\<close>

theorem batch_ranges_partition:
  "concat (map (\<lambda>(batch_start, batch_end). [batch_start..batch_end]) (batch_ranges max_records)) = [1..max_records] \<and>
   (\<forall>(batch_start, batch_end) \<in> set (batch_ranges max_records).
      batch_start \<le> batch_end \<and> batch_end - batch_start + 1 \<le> batch_size \<and>
      (batch_end < max_records \<longrightarrow> batch_end - batch_start + 1 = batch_size)) \<and>
   batch_ranges 320 = [(1, 150), (151, 300), (301, 320)]"
proof (intro conjI)
  have "concat (map (\<lambda>(batch_start, batch_end). [batch_start..batch_end]) (batch_ranges max_records))
          = concat (map (\<lambda>s. [s..min (s + batch_size - 1) max_records]) (py_range 1 (max_records + 1) batch_size))"
    by (simp add: batch_ranges_def comp_def)
  also have "\<dots> = [1..max_records]"
    by (rule py_range_cover) (simp add: batch_size_def)
  finally show "concat (map (\<lambda>(batch_start, batch_end). [batch_start..batch_end]) (batch_ranges max_records)) = [1..max_records]" .
next
  show "\<forall>(batch_start, batch_end) \<in> set (batch_ranges max_records).
      batch_start \<le> batch_end \<and> batch_end - batch_start + 1 \<le> batch_size \<and>
      (batch_end < max_records \<longrightarrow> batch_end - batch_start + 1 = batch_size)"
  proof (clarify)
    fix s e assume "(s, e) \<in> set (batch_ranges max_records)"
    then have s: "s \<in> set (py_range 1 (max_records + 1) batch_size)" and e: "e = min (s + batch_size - 1) max_records"
      by (auto simp: batch_ranges_def)
    from py_range_bounds [OF s] have "1 \<le> s" "s \<le> max_records" by auto
    then show "s \<le> e \<and> e - s + 1 \<le> batch_size \<and> (e < max_records \<longrightarrow> e - s + 1 = batch_size)"
      using e by (auto simp: batch_size_def min_def)
  qed
next
  show "batch_ranges 320 = [(1, 150), (151, 300), (301, 320)]" by (rule batch_ranges_320)
qed

theorem batch_ranges_partition_witness:
  "(151, 300) \<in> set (batch_ranges 320) \<and> (300 :: int) < 320 \<and> (300 :: int) - 151 + 1 = batch_size \<and>
   concat (map (\<lambda>(batch_start, batch_end). [batch_start..batch_end]) (batch_ranges 320)) = [1..320]"
proof -
  have mem: "(151, 300) \<in> set (batch_ranges 320)"
    by (simp add: batch_ranges_def batch_size_def py_range.simps)
  have lt: "(300 :: int) < 320" by simp
  from batch_ranges_partition [of 320] mem lt show ?thesis by fastforce
qed

section \<open>The projection\<close>

lemma exp_nat_ge: "2 ^ n \<le> exp (real n)"
proof -
  have "(2 :: real) \<le> exp 1" using exp_ge_add_one_self [of 1] by simp
  then have "(2 :: real) ^ n \<le> exp 1 ^ n" by (intro power_mono) auto
  also have "\<dots> = exp (real n)" using exp_of_nat_mult [of n "1 :: real"] by simp
  finally show ?thesis .
qed

lemma exp_nat_le: "exp (real n) \<le> 3 ^ n"
proof -
  have "exp (real n) = exp 1 ^ n" using exp_of_nat_mult [of n "1 :: real"] by simp
  also have "\<dots> \<le> 3 ^ n" using exp_le by (intro power_mono) auto
  finally show ?thesis .
qed

lemma max_float_bounds: "81 \<le> max_float" "max_float < 2 ^ 1024"
  by (simp_all add: max_float_def)

lemma math_exp_in_range: "t \<le> 4 \<Longrightarrow> math_exp t = Inr (exp t)"
proof -
  assume "t \<le> 4"
  then have "exp t \<le> exp (real 4)" by simp
  also have "\<dots> \<le> 3 ^ 4" by (rule exp_nat_le)
  also have "\<dots> \<le> max_float" using max_float_bounds(1) by simp
  finally show ?thesis by (simp add: math_exp_def)
qed

lemma math_exp_overflow: "1024 \<le> t \<Longrightarrow> math_exp t = Inl OverflowError"
proof -
  assume "1024 \<le> t"
  have "max_float < 2 ^ 1024" by (rule max_float_bounds(2))
  also have "\<dots> \<le> exp (real 1024)" by (rule exp_nat_ge)
  also have "\<dots> \<le> exp t" using \<open>1024 \<le> t\<close> by simp
  finally show ?thesis by (simp add: math_exp_def)
qed

lemma web_mercator_to_latlon_value:
  "exp (y / 6378137) \<le> max_float \<Longrightarrow>
     web_mercator_to_latlon x y =
       Inr ((x / 6378137) * (180 / pi), (2 * arctan (exp (y / 6378137)) - pi / 2) * (180 / pi))"
  by (simp add: web_mercator_to_latlon_def math_exp_def earth_radius_def)

lemma web_mercator_to_latlon_raises:
  "max_float < exp (y / 6378137) \<Longrightarrow> web_mercator_to_latlon x y = Inl OverflowError"
  by (simp add: web_mercator_to_latlon_def math_exp_def earth_radius_def)

lemma in_extent_no_overflow:
  assumes "\<bar>y\<bar> \<le> pi * 6378137" shows "exp (y / 6378137) \<le> max_float"
proof -
  have "y \<le> pi * 6378137" using assms by simp
  then have "y / 6378137 \<le> pi" by (simp add: field_simps)
  also have "pi \<le> 4" using pi_less_4 by simp
  finally have "math_exp (y / 6378137) = Inr (exp (y / 6378137))" by (rule math_exp_in_range)
  then show ?thesis by (simp add: math_exp_def split: if_splits)
qed

lemma latitude_bounds:
  "- 90 \<le> (2 * arctan (exp t) - pi / 2) * (180 / pi)"
  "(2 * arctan (exp t) - pi / 2) * (180 / pi) \<le> 90"
proof -
  have "0 < arctan (exp t)" by (simp add: zero_less_arctan_iff)
  then have "- (pi / 2) \<le> 2 * arctan (exp t) - pi / 2" by simp
  then have "- (pi / 2) * (180 / pi) \<le> (2 * arctan (exp t) - pi / 2) * (180 / pi)"
    using pi_gt_zero by (intro mult_right_mono) auto
  then show "- 90 \<le> (2 * arctan (exp t) - pi / 2) * (180 / pi)" by simp
  have "arctan (exp t) < pi / 2" by (rule arctan_ubound)
  then have "2 * arctan (exp t) - pi / 2 \<le> pi / 2" by simp
  then have "(2 * arctan (exp t) - pi / 2) * (180 / pi) \<le> (pi / 2) * (180 / pi)"
    using pi_gt_zero by (intro mult_right_mono) auto
  then show "(2 * arctan (exp t) - pi / 2) * (180 / pi) \<le> 90" by simp
qed

lemma longitude_bounds:
  assumes "\<bar>x\<bar> \<le> pi * 6378137"
  shows "- 180 \<le> (x / 6378137) * (180 / pi)" "(x / 6378137) * (180 / pi) \<le> 180"
proof -
  have "\<bar>x\<bar> / 6378137 \<le> pi" using assms by (simp add: field_simps)
  then have "\<bar>x\<bar> / 6378137 * (180 / pi) \<le> pi * (180 / pi)"
    using pi_gt_zero by (intro mult_right_mono) auto
  then have "\<bar>(x / 6378137) * (180 / pi)\<bar> \<le> 180"
    using pi_gt_zero by (simp add: abs_mult)
  then show "- 180 \<le> (x / 6378137) * (180 / pi)" "(x / 6378137) * (180 / pi) \<le> 180"
    by linarith+
qed

lemma latitude_mono:
  assumes "y \<le> y'"
  shows "(2 * arctan (exp (y / 6378137)) - pi / 2) * (180 / pi)
         \<le> (2 * arctan (exp (y' / 6378137)) - pi / 2) * (180 / pi)"
proof -
  have "y / 6378137 \<le> y' / 6378137" using assms by (simp add: divide_right_mono)
  then have "arctan (exp (y / 6378137)) \<le> arctan (exp (y' / 6378137))"
    by (simp add: arctan_le_iff)
  then show ?thesis using pi_gt_zero by (intro mult_right_mono) auto
qed

lemma far_north_overflows: "max_float < exp (10000000000 / 6378137)"
proof -
  have "(1024 :: real) \<le> 10000000000 / 6378137" by simp
  then have "math_exp (10000000000 / 6378137) = Inl OverflowError" by (rule math_exp_overflow)
  then show ?thesis by (simp add: math_exp_def split: if_splits)
qed

text \<open>
  Claim C10 does not hold as stated: the projector is not defined for every \<open>y\<close>. At
  \<open>y = 10^10\<close> the call of \<open>math.exp\<close> raises \<open>OverflowError\<close>, so there is no
  latitude to compare with that of a smaller \<open>y\<close>.
\<close>

theorem web_mercator_to_latlon_overflow:
  "web_mercator_to_latlon 0 10000000000 = Inl OverflowError"
  using far_north_overflows by (rule web_mercator_to_latlon_raises)

text \<open>
  Claim C10, amended. Where \<open>exp(y / 6378137)\<close> is within the range of floats the
  projector returns the longitude \<open>(x / 6378137) * (180 / pi)\<close> and the latitude
  \<open>(2 * atan(exp(y / 6378137)) - pi / 2) * (180 / pi)\<close>, and beyond it raises
  \<open>OverflowError\<close>; the origin goes to \<open>(0, 0)\<close>; for every point of the
  projection's extent (\<open>|x| \<le> pi * R\<close> and \<open>|y| \<le> pi * R\<close>) it returns a
  longitude within -180..180 and a latitude within -90..90; and for every \<open>x\<close>, of two
  inputs for which it returns, the one with the greater \<open>y\<close> has a latitude that is
  not smaller.
\<close>

theorem web_mercator_to_latlon_props:
  "(exp (y / 6378137) \<le> max_float \<longrightarrow>
      web_mercator_to_latlon x y =
        Inr ((x / 6378137) * (180 / pi), (2 * arctan (exp (y / 6378137)) - pi / 2) * (180 / pi))) \<and>
   (max_float < exp (y / 6378137) \<longrightarrow> web_mercator_to_latlon x y = Inl OverflowError) \<and>
   web_mercator_to_latlon 0 0 = Inr (0, 0) \<and>
   (\<bar>x\<bar> \<le> pi * 6378137 \<and> \<bar>y\<bar> \<le> pi * 6378137 \<longrightarrow>
      (\<exists>lon lat. web_mercator_to_latlon x y = Inr (lon, lat) \<and>
         - 180 \<le> lon \<and> lon \<le> 180 \<and> - 90 \<le> lat \<and> lat \<le> 90)) \<and>
   (y \<le> y' \<and> web_mercator_to_latlon x y = Inr (lon, lat) \<and>
    web_mercator_to_latlon x y' = Inr (lon', lat') \<longrightarrow> lat \<le> lat')"
proof (intro conjI)
  show "exp (y / 6378137) \<le> max_float \<longrightarrow>
      web_mercator_to_latlon x y =
        Inr ((x / 6378137) * (180 / pi), (2 * arctan (exp (y / 6378137)) - pi / 2) * (180 / pi))"
    using web_mercator_to_latlon_value by blast
  show "max_float < exp (y / 6378137) \<longrightarrow> web_mercator_to_latlon x y = Inl OverflowError"
    using web_mercator_to_latlon_raises by blast
  have "exp (0 / 6378137) \<le> max_float" using max_float_bounds(1) by simp
  from web_mercator_to_latlon_value [OF this, of 0]
  show "web_mercator_to_latlon 0 0 = Inr (0, 0)" by (simp add: arctan_one)
  show "\<bar>x\<bar> \<le> pi * 6378137 \<and> \<bar>y\<bar> \<le> pi * 6378137 \<longrightarrow>
      (\<exists>lon lat. web_mercator_to_latlon x y = Inr (lon, lat) \<and>
         - 180 \<le> lon \<and> lon \<le> 180 \<and> - 90 \<le> lat \<and> lat \<le> 90)"
  proof
    assume ext: "\<bar>x\<bar> \<le> pi * 6378137 \<and> \<bar>y\<bar> \<le> pi * 6378137"
    then have "web_mercator_to_latlon x y =
        Inr ((x / 6378137) * (180 / pi), (2 * arctan (exp (y / 6378137)) - pi / 2) * (180 / pi))"
      by (intro web_mercator_to_latlon_value in_extent_no_overflow) simp
    then show "\<exists>lon lat. web_mercator_to_latlon x y = Inr (lon, lat) \<and>
         - 180 \<le> lon \<and> lon \<le> 180 \<and> - 90 \<le> lat \<and> lat \<le> 90"
      using longitude_bounds [of x] latitude_bounds [of "y / 6378137"] ext by simp
  qed
  show "y \<le> y' \<and> web_mercator_to_latlon x y = Inr (lon, lat) \<and>
    web_mercator_to_latlon x y' = Inr (lon', lat') \<longrightarrow> lat \<le> lat'"
  proof
    assume h: "y \<le> y' \<and> web_mercator_to_latlon x y = Inr (lon, lat) \<and>
      web_mercator_to_latlon x y' = Inr (lon', lat')"
    then have "lat = (2 * arctan (exp (y / 6378137)) - pi / 2) * (180 / pi)"
      and "lat' = (2 * arctan (exp (y' / 6378137)) - pi / 2) * (180 / pi)"
      by (auto simp: web_mercator_to_latlon_def math_exp_def earth_radius_def split: if_splits)
    then show "lat \<le> lat'" using latitude_mono [of y y'] h by simp
  qed
qed

theorem web_mercator_to_latlon_props_witness:
  "exp (2000000 / 6378137) \<le> max_float \<and>
   web_mercator_to_latlon 1000000 2000000 =
     Inr ((1000000 / 6378137) * (180 / pi), (2 * arctan (exp (2000000 / 6378137)) - pi / 2) * (180 / pi)) \<and>
   max_float < exp (10000000000 / 6378137) \<and>
   web_mercator_to_latlon 1000000 10000000000 = Inl OverflowError \<and>
   \<bar>1000000 :: real\<bar> \<le> pi * 6378137 \<and> \<bar>2000000 :: real\<bar> \<le> pi * 6378137 \<and>
   (\<exists>lon lat. web_mercator_to_latlon 1000000 2000000 = Inr (lon, lat) \<and>
      - 180 \<le> lon \<and> lon \<le> 180 \<and> - 90 \<le> lat \<and> lat \<le> 90) \<and>
   (2000000 :: real) \<le> 3000000 \<and>
   (2 * arctan (exp (2000000 / 6378137)) - pi / 2) * (180 / pi)
     \<le> (2 * arctan (exp (3000000 / 6378137)) - pi / 2) * (180 / pi)"
proof -
  have two: "(2 :: real) * 6378137 \<le> pi * 6378137"
    using pi_ge_two by (intro mult_right_mono) simp_all
  have ext: "\<bar>1000000 :: real\<bar> \<le> pi * 6378137 \<and> \<bar>2000000 :: real\<bar> \<le> pi * 6378137"
    using two by simp
  have ext3: "\<bar>3000000 :: real\<bar> \<le> pi * 6378137" using two by simp
  have r2: "exp (2000000 / 6378137) \<le> max_float"
    using ext by (intro in_extent_no_overflow) simp
  have r3: "exp (3000000 / 6378137) \<le> max_float"
    using ext3 by (rule in_extent_no_overflow)
  note props = web_mercator_to_latlon_props
  note value2 = conjunct1 [OF props [of 2000000 1000000], rule_format, OF r2]
  note value3 = conjunct1 [OF props [of 3000000 1000000], rule_format, OF r3]
  note raises = conjunct1 [OF conjunct2 [OF props [of 10000000000 1000000]], rule_format,
      OF far_north_overflows]
  note range = conjunct1 [OF conjunct2 [OF conjunct2 [OF conjunct2
      [OF props [of 2000000 1000000]]]], rule_format, OF ext]
  have le: "(2000000 :: real) \<le> 3000000" by simp
  note mono = conjunct2 [OF conjunct2 [OF conjunct2 [OF conjunct2
      [OF props [of 2000000 1000000 3000000]]]], rule_format, OF conjI [OF le conjI [OF value2 value3]]]
  show ?thesis using r2 value2 far_north_overflows raises ext range le mono by blast
qed

section \<open>The classifier\<close>

lemma percentile_examples:
  "np_percentile [10, 20, 30, 40, 50] 20 = Inr 18"
  "np_percentile [10, 20, 30, 40, 50] 40 = Inr 26"
  "np_percentile [10, 20, 30, 40, 50] 60 = Inr 34"
  "np_percentile [10, 20, 30, 40, 50] 80 = Inr 42"
  by (simp_all add: np_percentile_def Let_def)

lemma classify_data_example:
  "classify_data [10, 20, 30, 40, 50] ''Quantile'' 5 = Inr [18, 26, 34, 42, 50]"
  "classify_data [10, 20, 30, 40, 50] ''Equal Interval'' 5 = Inr [18, 26, 34, 42, 50]"
proof -
  have "quantile_loop [10, 20, 30, 40, 50] 5 [1, 2, 3, 4] [] = Inr [18, 26, 34, 42]"
    by (simp add: percentile_examples)
  moreover have "[1 .. (5::int) - 1] = [1, 2, 3, 4]" by (simp add: upto.simps)
  ultimately show "classify_data [10, 20, 30, 40, 50] ''Quantile'' 5 = Inr [18, 26, 34, 42, 50]"
    by (simp add: classify_data_def classify_quantile_def py_max_def)
  have "[0 .. (5::int) - 1] = [0, 1, 2, 3, 4]" by (simp add: upto.simps)
  then show "classify_data [10, 20, 30, 40, 50] ''Equal Interval'' 5 = Inr [18, 26, 34, 42, 50]"
    by (simp add: classify_data_def py_max_def py_min_def)
qed

lemma sort_not_Nil: "xs \<noteq> [] \<Longrightarrow> sort xs \<noteq> []"
  by (metis length_sort length_0_conv)

lemma py_max_Max: "xs \<noteq> [] \<Longrightarrow> py_max xs = Inr (Max (set xs))"
  by (cases xs) (simp_all add: py_max_def Max.set_eq_fold [symmetric])

lemma py_min_Min: "xs \<noteq> [] \<Longrightarrow> py_min xs = Inr (Min (set xs))"
  by (cases xs) (simp_all add: py_min_def Min.set_eq_fold [symmetric])

lemma np_percentile_interpolated:
  assumes "s \<noteq> []" "0 \<le> p" "p \<le> 1"
  shows "np_percentile (sort s) (p * 100) = Inr (interpolated (sort s) p)"
proof -
  define h where "h = p * real (length (sort s) - 1)"
  define lo where "lo = nat \<lfloor>h\<rfloor>"
  define hi where "hi = min (lo + 1) (length (sort s) - 1)"
  have ne: "sort s \<noteq> []" using assms(1) by (rule sort_not_Nil)
  then have "real (length (sort s) - 1) = real (length (sort s)) - 1"
    by (cases "sort s") simp_all
  then have hh: "p * 100 / 100 * (real (length (sort s)) - 1) = h" by (simp add: h_def)
  have q: "\<not> (p * 100 < 0 \<or> 100 < p * 100)" using assms(2,3) by simp
  have again: "sort (sort s) = sort s" by (rule sorted_sort_id) simp
  have "np_percentile (sort s) (p * 100) =
          Inr (sort s ! lo + (h - real lo) * (sort s ! hi - sort s ! lo))"
    unfolding np_percentile_def Let_def again hh
      lo_def [symmetric] hi_def [symmetric]
    using q ne by simp
  moreover have "interpolated (sort s) p =
          (1 - (h - real lo)) * sort s ! lo + (h - real lo) * sort s ! hi"
    unfolding interpolated_def Let_def h_def [symmetric] lo_def [symmetric] hi_def [symmetric]
    by simp
  moreover have "sort s ! lo + (h - real lo) * (sort s ! hi - sort s ! lo) =
          (1 - (h - real lo)) * sort s ! lo + (h - real lo) * sort s ! hi"
    by (simp add: algebra_simps)
  ultimately show ?thesis by simp
qed

lemma quantile_loop_interpolated:
  assumes "s \<noteq> []" "\<forall>i \<in> set js. 0 \<le> i \<and> i \<le> n \<and> 0 < n"
  shows "quantile_loop (sort s) n js acc =
           Inr (acc @ map (\<lambda>i. interpolated (sort s) (real_of_int i / real_of_int n)) js)"
  using assms(2)
proof (induction js arbitrary: acc)
  case Nil
  then show ?case by simp
next
  case (Cons i js)
  have "0 \<le> real_of_int i / real_of_int n" "real_of_int i / real_of_int n \<le> 1"
    using Cons.prems by (auto simp: field_simps)
  from np_percentile_interpolated [OF assms(1) this]
  have "np_percentile (sort s) (real_of_int i / real_of_int n * 100) =
          Inr (interpolated (sort s) (real_of_int i / real_of_int n))" .
  then show ?case using Cons.IH Cons.prems by simp
qed

lemma map_upto_shift: "map (\<lambda>i. f (i + 1)) [a..b] = map f [a + 1..b + 1]"
proof (induction a b rule: upto.induct)
  case (1 i j)
  show ?case
  proof (cases "i \<le> j")
    case True
    then have "[i..j] = i # [i + 1..j]" "[i + 1..j + 1] = (i + 1) # [i + 1 + 1..j + 1]"
      by (simp_all add: upto_rec1)
    then show ?thesis using 1 True by simp
  next
    case False
    then show ?thesis by simp
  qed
qed

text \<open>
  Claim C4. For every non-empty input and every class count, the Quantile method gives the
  values of the sorted input at the fractions \<open>i / n\<close>, \<open>i = 1..n-1\<close>, by linear
  interpolation, followed by the maximum; for every non-empty input and non-zero class
  count, the Equal Interval method gives \<open>min + interval * i\<close> for \<open>i = 1..n\<close> with
  \<open>interval = (max - min) / n\<close>. For the input 10, 20, 30, 40, 50 and 5 classes both
  give the breaks 18, 26, 34, 42, 50.
\<close>

theorem classify_data_formulas:
  "(data \<noteq> [] \<longrightarrow>
      classify_data data ''Quantile'' n =
        Inr (map (\<lambda>i. interpolated (sort data) (real_of_int i / real_of_int n)) [1..n - 1] @
             [Max (set data)])) \<and>
   (data \<noteq> [] \<and> n \<noteq> 0 \<longrightarrow>
      classify_data data ''Equal Interval'' n =
        Inr (map (\<lambda>i. Min (set data) + (Max (set data) - Min (set data)) / real_of_int n * real_of_int i)
               [1..n])) \<and>
   classify_data [10, 20, 30, 40, 50] ''Quantile'' 5 = Inr [18, 26, 34, 42, 50] \<and>
   classify_data [10, 20, 30, 40, 50] ''Equal Interval'' 5 = Inr [18, 26, 34, 42, 50]"
proof (intro conjI impI)
  assume ne: "data \<noteq> []"
  have "\<forall>i \<in> set [1..n - 1]. 0 \<le> i \<and> i \<le> n \<and> 0 < n" by auto
  from quantile_loop_interpolated [OF ne this, of "[]"]
  have "quantile_loop (sort data) n [1..n - 1] [] =
      Inr (map (\<lambda>i. interpolated (sort data) (real_of_int i / real_of_int n)) [1..n - 1])"
    by simp
  moreover have "py_max (sort data) = Inr (Max (set data))"
    using py_max_Max [OF sort_not_Nil [OF ne]] by simp
  ultimately show "classify_data data ''Quantile'' n =
        Inr (map (\<lambda>i. interpolated (sort data) (real_of_int i / real_of_int n)) [1..n - 1] @
             [Max (set data)])"
    by (simp add: classify_data_def classify_quantile_def)
next
  assume h: "data \<noteq> [] \<and> n \<noteq> 0"
  then have ne: "sort data \<noteq> []" by (simp add: sort_not_Nil)
  have mx: "py_max (sort data) = Inr (Max (set data))" using py_max_Max [OF ne] by simp
  have mn: "py_min (sort data) = Inr (Min (set data))" using py_min_Min [OF ne] by simp
  have "map (\<lambda>i. Min (set data) + (Max (set data) - Min (set data)) / real_of_int n * (real_of_int i + 1))
          [0..n - 1] =
        map (\<lambda>i. Min (set data) + (Max (set data) - Min (set data)) / real_of_int n * real_of_int i)
          [1..n]"
    using map_upto_shift [of "\<lambda>i. Min (set data) + (Max (set data) - Min (set data)) / real_of_int n * real_of_int i" 0 "n - 1"]
    by simp
  then show "classify_data data ''Equal Interval'' n =
        Inr (map (\<lambda>i. Min (set data) + (Max (set data) - Min (set data)) / real_of_int n * real_of_int i)
               [1..n])"
    using h mx mn by (simp add: classify_data_def)
next
  show "classify_data [10, 20, 30, 40, 50] ''Quantile'' 5 = Inr [18, 26, 34, 42, 50]"
    by (rule classify_data_example)
  show "classify_data [10, 20, 30, 40, 50] ''Equal Interval'' 5 = Inr [18, 26, 34, 42, 50]"
    by (rule classify_data_example)
qed

theorem classify_data_formulas_witness:
  "[3, 1, 2 :: real] \<noteq> [] \<and> (2 :: int) \<noteq> 0 \<and>
   classify_data [3, 1, 2] ''Quantile'' 2 = Inr [2, 3] \<and>
   classify_data [3, 1, 2] ''Equal Interval'' 2 = Inr [2, 3]"
proof -
  have a: "[3, 1, 2 :: real] \<noteq> []" by simp
  have b: "[3, 1, 2 :: real] \<noteq> [] \<and> (2 :: int) \<noteq> 0" by simp
  note quantile = conjunct1 [OF classify_data_formulas [of "[3, 1, 2]" 2], rule_format, OF a]
  note interval = conjunct1 [OF conjunct2 [OF classify_data_formulas [of "[3, 1, 2]" 2]],
      rule_format, OF b]
  have up: "[1..(2 :: int) - 1] = [1]" "[1..(2 :: int)] = [1, 2]" by (simp_all add: upto.simps)
  have q: "interpolated [1, 2, 3] (1 / 2) = 2"
    by (simp add: interpolated_def Let_def)
  show ?thesis using quantile interval by (simp add: up q)
qed

text \<open>
  Claim C9 does not hold as stated: on the empty input \<open>_classify_data\<close> raises, whatever
  the method (\<open>min\<close> and \<open>max\<close> of an empty list, or the percentile of an empty
  array), instead of returning an empty break sequence.
\<close>

theorem classify_data_empty_raises:
  "classify_data [] ''Equal Interval'' 5 = Inl ValueError \<and>
   classify_data [] ''Natural Breaks (Jenks)'' 5 = Inl ValueError \<and>
   classify_data [] ''Quantile'' 1 = Inl ValueError \<and>
   classify_data [] ''Quantile'' 5 = Inl IndexError"
proof (intro conjI)
  show "classify_data [] ''Equal Interval'' 5 = Inl ValueError"
    by (simp add: classify_data_def py_min_def)
  show "classify_data [] ''Natural Breaks (Jenks)'' 5 = Inl ValueError"
    by (simp add: classify_data_def jenks_breaks_def py_max_def)
  show "classify_data [] ''Quantile'' 1 = Inl ValueError"
    by (simp add: classify_data_def classify_quantile_def py_max_def)
  have "[1 .. (5::int) - 1] = [1, 2, 3, 4]" by (simp add: upto.simps)
  then show "classify_data [] ''Quantile'' 5 = Inl IndexError"
    by (simp add: classify_data_def classify_quantile_def np_percentile_def)
qed

lemma np_percentile_ok:
  "a \<noteq> [] \<Longrightarrow> 0 \<le> q \<Longrightarrow> q \<le> 100 \<Longrightarrow> \<exists>v. np_percentile a q = Inr v"
  by (simp add: np_percentile_def Let_def)

lemma quantile_loop_ok:
  "s \<noteq> [] \<Longrightarrow> \<forall>i \<in> set js. 0 \<le> i \<and> i \<le> n \<and> 0 < n \<Longrightarrow>
     \<exists>breaks. quantile_loop s n js acc = Inr breaks"
proof (induction js arbitrary: acc)
  case Nil
  then show ?case by simp
next
  case (Cons i js)
  have "0 \<le> real_of_int i / real_of_int n * 100" "real_of_int i / real_of_int n * 100 \<le> 100"
    using Cons.prems(2) by (auto simp: field_simps)
  with np_percentile_ok [OF Cons.prems(1)] obtain v
    where v: "np_percentile s (real_of_int i / real_of_int n * 100) = Inr v" by blast
  show ?case using v Cons.IH [OF Cons.prems(1)] Cons.prems(2) by simp
qed

lemma quantile_loop_empty:
  "js \<noteq> [] \<Longrightarrow> \<exists>e. quantile_loop [] n js acc = Inl e"
  by (cases js) (auto simp: np_percentile_def Let_def)

lemma py_max_ok: "xs \<noteq> [] \<Longrightarrow> \<exists>m. py_max xs = Inr m"
  by (cases xs) (auto simp: py_max_def)

lemma py_min_ok: "xs \<noteq> [] \<Longrightarrow> \<exists>m. py_min xs = Inr m"
  by (cases xs) (auto simp: py_min_def)

lemma classify_quantile_ok:
  assumes "s \<noteq> []" shows "\<exists>breaks. classify_quantile s n = Inr breaks"
proof -
  have "\<forall>i \<in> set [1..n - 1]. 0 \<le> i \<and> i \<le> n \<and> 0 < n" by auto
  from quantile_loop_ok [OF assms this] obtain bs
    where "quantile_loop s n [1..n - 1] [] = Inr bs" by blast
  moreover from py_max_ok [OF assms] obtain m where "py_max s = Inr m" by blast
  ultimately show ?thesis by (simp add: classify_quantile_def)
qed

lemma classify_quantile_empty: "\<exists>e. classify_quantile [] n = Inl e"
proof (cases "quantile_loop [] n [1..n - 1] []")
  case (Inl e)
  then show ?thesis by (simp add: classify_quantile_def)
next
  case (Inr bs)
  then show ?thesis by (simp add: classify_quantile_def py_max_def)
qed

lemma classify_data_nonempty_ok:
  assumes "data \<noteq> []" and "method = ''Equal Interval'' \<longrightarrow> n \<noteq> 0"
  shows "\<exists>breaks. classify_data data method n = Inr breaks"
proof -
  have s: "sort data \<noteq> []" using assms(1) by (rule sort_not_Nil)
  from py_max_ok [OF s] obtain mx where mx: "py_max (sort data) = Inr mx" by blast
  from py_min_ok [OF s] obtain mn where mn: "py_min (sort data) = Inr mn" by blast
  from py_max_ok [OF sort_not_Nil [OF s]] obtain mx2 where mx2: "py_max (sort (sort data)) = Inr mx2" by blast
  from classify_quantile_ok [OF s] obtain bs where bs: "classify_quantile (sort data) n = Inr bs" by blast
  show ?thesis using mx mx2 mn bs assms(2)
    by (simp add: classify_data_def jenks_breaks_def Let_def)
qed

text \<open>
  Claim C9, amended. On the empty input \<open>_classify_data\<close> raises for every method and
  every class count. A method name other than the two other known ones is classified as
  Quantile. On a non-empty input it returns a break sequence without raising, for every
  method and class count, but for Equal Interval with 0 classes (a division by zero). The
  caller \<open>_apply_chloropleth\<close> never lets an error arise: it returns before classifying
  when no positive value is left, and classifies into 5 classes otherwise.
\<close>

theorem classify_data_raises_only_on_empty:
  "(\<forall>method n. \<exists>e. classify_data [] method n = Inl e) \<and>
   (\<forall>data method n. method \<noteq> ''Equal Interval'' \<and> method \<noteq> ''Natural Breaks (Jenks)'' \<longrightarrow>
      classify_data data method n = classify_data data ''Quantile'' n) \<and>
   (\<forall>data method n. data \<noteq> [] \<and> (method = ''Equal Interval'' \<longrightarrow> n \<noteq> 0) \<longrightarrow>
      (\<exists>breaks. classify_data data method n = Inr breaks)) \<and>
   (\<forall>populations method e. apply_chloropleth populations method \<noteq> Some (Inl e))"
proof (intro conjI allI impI)
  fix mth :: string and n :: int
  from classify_quantile_empty [of n] obtain e where "classify_quantile [] n = Inl e" by blast
  then show "\<exists>e. classify_data [] mth n = Inl e"
    by (simp add: classify_data_def jenks_breaks_def py_max_def py_min_def Let_def)
next
  fix data :: "real list" and mth :: string and n :: int
  assume "mth \<noteq> ''Equal Interval'' \<and> mth \<noteq> ''Natural Breaks (Jenks)''"
  then show "classify_data data mth n = classify_data data ''Quantile'' n"
    by (simp add: classify_data_def Let_def)
next
  fix data :: "real list" and mth :: string and n :: int
  assume "data \<noteq> [] \<and> (mth = ''Equal Interval'' \<longrightarrow> n \<noteq> 0)"
  then show "\<exists>breaks. classify_data data mth n = Inr breaks"
    using classify_data_nonempty_ok by blast
next
  fix populations :: "real list" and mth :: string and e :: py_error
  show "apply_chloropleth populations mth \<noteq> Some (Inl e)"
  proof (cases "filter (\<lambda>p. p > 0) populations = []")
    case True
    then show ?thesis by (simp add: apply_chloropleth_def)
  next
    case False
    from classify_data_nonempty_ok [OF False, of mth 5]
    show ?thesis using False by (auto simp: apply_chloropleth_def)
  qed
qed

theorem classify_data_raises_only_on_empty_witness:
  "''Jenks'' \<noteq> ''Equal Interval'' \<and> ''Jenks'' \<noteq> ''Natural Breaks (Jenks)'' \<and>
   classify_data [30, 10, 20] ''Jenks'' 2 = classify_data [30, 10, 20] ''Quantile'' 2 \<and>
   [30, 10, 20 :: real] \<noteq> [] \<and> (2 :: int) \<noteq> 0 \<and>
   (\<exists>breaks. classify_data [30, 10, 20] ''Equal Interval'' 2 = Inr breaks)"
proof -
  note fallback = conjunct1 [OF conjunct2 [OF classify_data_raises_only_on_empty], rule_format]
  note total = conjunct1 [OF conjunct2 [OF conjunct2 [OF classify_data_raises_only_on_empty]], rule_format]
  have a: "''Jenks'' \<noteq> ''Equal Interval'' \<and> ''Jenks'' \<noteq> ''Natural Breaks (Jenks)''" by simp
  have b: "[30, 10, 20 :: real] \<noteq> [] \<and> (''Equal Interval'' = ''Equal Interval'' \<longrightarrow> (2 :: int) \<noteq> 0)" by simp
  show ?thesis using fallback [OF a, of "[30, 10, 20]" 2] total [OF b] a by simp
qed

section \<open>The ring-to-geometry policy of the converter\<close>

lemma collect_length: "collect f xs = Inr ys \<Longrightarrow> length ys = length xs"
  by (induction xs arbitrary: ys) (auto split: sum.splits)

lemma collect_filter:
  assumes "collect f xs = Inr ys" and "\<And>x y. f x = Inr y \<Longrightarrow> P x = Q y"
  shows "collect f (filter P xs) = Inr (filter Q ys)"
  using assms(1)
proof (induction xs arbitrary: ys)
  case Nil
  then show ?case by simp
next
  case (Cons x xs)
  from Cons.prems obtain y ys' where y: "f x = Inr y" and ys': "collect f xs = Inr ys'"
    and ys: "ys = y # ys'"
    by (auto split: sum.splits)
  from Cons.IH [OF ys'] assms(2) [OF y] show ?case by (simp add: y ys)
qed

lemma collect_all:
  "(\<And>x. x \<in> set xs \<Longrightarrow> f x = Inr (g x)) \<Longrightarrow> collect f xs = Inr (map g xs)"
  by (induction xs) auto

lemma collect_raises:
  "collect f xs = Inl e \<longleftrightarrow>
     (\<exists>pre x post. xs = pre @ x # post \<and> f x = Inl e \<and> (\<forall>z \<in> set pre. \<exists>y. f z = Inr y))"
proof (induction xs)
  case Nil
  then show ?case by simp
next
  case (Cons a xs)
  show ?case
  proof (cases "f a")
    case (Inl e')
    then show ?thesis
      by (auto simp: Cons_eq_append_conv intro: exI [of _ "[]"])
  next
    case (Inr b)
    show ?thesis
    proof
      assume "collect f (a # xs) = Inl e"
      then have "collect f xs = Inl e" using Inr by (auto split: sum.splits)
      with Cons.IH obtain pre x post where "xs = pre @ x # post" "f x = Inl e"
        "\<forall>z \<in> set pre. \<exists>y. f z = Inr y" by blast
      then show "\<exists>pre x post. a # xs = pre @ x # post \<and> f x = Inl e \<and> (\<forall>z \<in> set pre. \<exists>y. f z = Inr y)"
        using Inr by (intro exI [of _ "a # pre"] exI [of _ x] exI [of _ post]) auto
    next
      assume "\<exists>pre x post. a # xs = pre @ x # post \<and> f x = Inl e \<and> (\<forall>z \<in> set pre. \<exists>y. f z = Inr y)"
      then obtain pre x post where h: "a # xs = pre @ x # post" "f x = Inl e"
        "\<forall>z \<in> set pre. \<exists>y. f z = Inr y" by blast
      with Inr obtain pre' where "pre = a # pre'" "xs = pre' @ x # post"
        by (cases pre) auto
      with h Cons.IH have "collect f xs = Inl e" by auto
      then show "collect f (a # xs) = Inl e" using Inr by simp
    qed
  qed
qed

lemma near_origin:
  assumes "\<bar>y\<bar> \<le> 6378137" shows "web_mercator_to_latlon x y = Inr (degrees (x, y))"
proof -
  have "(6378137 :: real) \<le> pi * 6378137" using pi_ge_two by simp
  with assms have "\<bar>y\<bar> \<le> pi * 6378137" by simp
  from web_mercator_to_latlon_value [OF in_extent_no_overflow [OF this]]
  show ?thesis by (simp add: degrees_def earth_radius_def)
qed

lemma collect_ring_length:
  "collect (\<lambda>(x, y). web_mercator_to_latlon x y) ring = Inr converted_ring \<Longrightarrow>
     (4 \<le> length ring) = (4 \<le> length converted_ring)"
  using collect_length [of "\<lambda>(x, y). web_mercator_to_latlon x y" ring converted_ring] by simp

text \<open>
  Claim C8 does not hold as stated: a record with two rings, one of them degenerate
  (3 points), is emitted as a \<open>Polygon\<close> with the other ring, not as a
  \<open>MultiPolygon\<close>.
\<close>

theorem convert_two_rings_one_degenerate:
  "convert_arcgis_geometry_to_geojson
     (Some [[(0, 0), (10, 0), (10, 10), (0, 0)], [(20, 20), (30, 30), (20, 20)]]) =
   Inr (Polygon [map degrees [(0, 0), (10, 0), (10, 10), (0, 0)]])"
  by (simp add: convert_arcgis_geometry_to_geojson_def near_origin)

text \<open>
  Claim C8, amended. A record with exactly one ring is emitted as a \<open>Polygon\<close> with
  that ring, projected, whatever its length. For a record with another number of rings,
  the rings of fewer than 4 points are dropped; if exactly one ring is left it is emitted
  as a \<open>Polygon\<close> with that ring, and otherwise the record is emitted as a
  \<open>MultiPolygon\<close> with each remaining ring as a single-ring polygon of its own. This is
  so whenever every ring of the record can be projected; when the projection of a point
  raises, the conversion raises the same error.
\<close>

theorem convert_ring_policy:
  "(collect (\<lambda>(x, y). web_mercator_to_latlon x y) ring = Inr converted_ring \<longrightarrow>
      convert_arcgis_geometry_to_geojson (Some [ring]) = Inr (Polygon [converted_ring])) \<and>
   (collect (collect (\<lambda>(x, y). web_mercator_to_latlon x y)) rings = Inr converted \<and>
    length rings \<noteq> 1 \<and> filter (\<lambda>r. 4 \<le> length r) rings = [ring] \<and>
    collect (\<lambda>(x, y). web_mercator_to_latlon x y) ring = Inr converted_ring \<longrightarrow>
      convert_arcgis_geometry_to_geojson (Some rings) = Inr (Polygon [converted_ring])) \<and>
   (collect (collect (\<lambda>(x, y). web_mercator_to_latlon x y)) rings = Inr converted \<and>
    length rings \<noteq> 1 \<and> length (filter (\<lambda>r. 4 \<le> length r) rings) \<noteq> 1 \<longrightarrow>
      convert_arcgis_geometry_to_geojson (Some rings) =
        Inr (MultiPolygon (map (\<lambda>r. [r]) (filter (\<lambda>r. 4 \<le> length r) converted))) \<and>
      collect (collect (\<lambda>(x, y). web_mercator_to_latlon x y)) (filter (\<lambda>r. 4 \<le> length r) rings) =
        Inr (filter (\<lambda>r. 4 \<le> length r) converted)) \<and>
   (collect (collect (\<lambda>(x, y). web_mercator_to_latlon x y)) rings = Inl e \<longrightarrow>
      convert_arcgis_geometry_to_geojson (Some rings) = Inl e)"
proof (intro conjI; rule impI)
  let ?proj = "\<lambda>(x, y). web_mercator_to_latlon x y"
  {
    assume "collect ?proj ring = Inr converted_ring"
    then show "convert_arcgis_geometry_to_geojson (Some [ring]) = Inr (Polygon [converted_ring])"
      by (simp add: convert_arcgis_geometry_to_geojson_def)
  next
    assume h: "collect (collect ?proj) rings = Inr converted \<and>
      length rings \<noteq> 1 \<and> filter (\<lambda>r. 4 \<le> length r) rings = [ring] \<and>
      collect ?proj ring = Inr converted_ring"
    then have conv: "collect (collect ?proj) rings = Inr converted" by simp
    have kept: "collect (collect ?proj) (filter (\<lambda>r. 4 \<le> length r) rings) =
        Inr (filter (\<lambda>r. 4 \<le> length r) converted)"
      using conv by (rule collect_filter) (rule collect_ring_length)
    with h have "filter (\<lambda>r. 4 \<le> length r) converted = [converted_ring]" by simp
    moreover have "length converted \<noteq> 1" using collect_length [OF conv] h by simp
    ultimately show "convert_arcgis_geometry_to_geojson (Some rings) = Inr (Polygon [converted_ring])"
      using conv by (simp add: convert_arcgis_geometry_to_geojson_def)
  next
    assume h: "collect (collect ?proj) rings = Inr converted \<and>
      length rings \<noteq> 1 \<and> length (filter (\<lambda>r. 4 \<le> length r) rings) \<noteq> 1"
    then have conv: "collect (collect ?proj) rings = Inr converted" by simp
    have kept: "collect (collect ?proj) (filter (\<lambda>r. 4 \<le> length r) rings) =
        Inr (filter (\<lambda>r. 4 \<le> length r) converted)"
      using conv by (rule collect_filter) (rule collect_ring_length)
    have "length (filter (\<lambda>r. 4 \<le> length r) converted) \<noteq> 1"
      using collect_length [OF kept] h by simp
    moreover have "length converted \<noteq> 1" using collect_length [OF conv] h by simp
    ultimately show "convert_arcgis_geometry_to_geojson (Some rings) =
        Inr (MultiPolygon (map (\<lambda>r. [r]) (filter (\<lambda>r. 4 \<le> length r) converted))) \<and>
      collect (collect ?proj) (filter (\<lambda>r. 4 \<le> length r) rings) =
        Inr (filter (\<lambda>r. 4 \<le> length r) converted)"
      using conv kept by (simp add: convert_arcgis_geometry_to_geojson_def)
  next
    assume "collect (collect ?proj) rings = Inl e"
    then show "convert_arcgis_geometry_to_geojson (Some rings) = Inl e"
      by (simp add: convert_arcgis_geometry_to_geojson_def)
  }
qed

theorem convert_ring_policy_witness:
  "collect (\<lambda>(x, y). web_mercator_to_latlon x y) [(0, 0), (10, 0), (10, 10), (0, 0)] =
     Inr (map degrees [(0, 0), (10, 0), (10, 10), (0, 0)]) \<and>
   convert_arcgis_geometry_to_geojson (Some [[(0, 0), (10, 0), (10, 10), (0, 0)]]) =
     Inr (Polygon [map degrees [(0, 0), (10, 0), (10, 10), (0, 0)]]) \<and>
   filter (\<lambda>r. 4 \<le> length r) [[(0, 0), (10, 0), (10, 10), (0, 0)], [(20, 20), (30, 30), (20, 20 :: real)]]
     = [[(0, 0), (10, 0), (10, 10), (0, 0 :: real)]] \<and>
   convert_arcgis_geometry_to_geojson
     (Some [[(0, 0), (10, 0), (10, 10), (0, 0)], [(20, 20), (30, 30), (20, 20)]]) =
     Inr (Polygon [map degrees [(0, 0), (10, 0), (10, 10), (0, 0)]]) \<and>
   length (filter (\<lambda>r. 4 \<le> length r)
      [[(0, 0), (10, 0), (10, 10), (0, 0)], [(20, 20), (30, 20), (30, 30), (20, 20 :: real)]]) \<noteq> 1 \<and>
   convert_arcgis_geometry_to_geojson
     (Some [[(0, 0), (10, 0), (10, 10), (0, 0)], [(20, 20), (30, 20), (30, 30), (20, 20)]]) =
     Inr (MultiPolygon
       [[map degrees [(0, 0), (10, 0), (10, 10), (0, 0)]],
        [map degrees [(20, 20), (30, 20), (30, 30), (20, 20)]]]) \<and>
   collect (collect (\<lambda>(x, y). web_mercator_to_latlon x y))
     [[(0, 0), (10, 0), (10, 10), (0, 0)], [(0, 10000000000)]] = Inl OverflowError \<and>
   convert_arcgis_geometry_to_geojson
     (Some [[(0, 0), (10, 0), (10, 10), (0, 0)], [(0, 10000000000)]]) = Inl OverflowError"
proof -
  let ?proj = "\<lambda>(x, y). web_mercator_to_latlon x y"
  let ?A = "[(0, 0), (10, 0), (10, 10), (0, 0 :: real)] :: ring"
  let ?B = "[(20, 20), (30, 30), (20, 20 :: real)] :: ring"
  let ?C = "[(20, 20), (30, 20), (30, 30), (20, 20 :: real)] :: ring"
  let ?D = "[(0, 10000000000 :: real)] :: ring"
  have far: "web_mercator_to_latlon 0 10000000000 = Inl OverflowError"
    using far_north_overflows by (rule web_mercator_to_latlon_raises)
  have a: "collect ?proj ?A = Inr (map degrees ?A)" by (simp add: near_origin)
  have ab: "collect (collect ?proj) [?A, ?B] = Inr [map degrees ?A, map degrees ?B]"
    by (simp add: near_origin)
  have ac: "collect (collect ?proj) [?A, ?C] = Inr [map degrees ?A, map degrees ?C]"
    by (simp add: near_origin)
  have ad: "collect (collect ?proj) [?A, ?D] = Inl OverflowError"
    by (simp add: near_origin far)
  note policy = convert_ring_policy
  note one = conjunct1 [OF policy [of ?A "map degrees ?A"], rule_format, OF a]
  have h2: "collect (collect ?proj) [?A, ?B] = Inr [map degrees ?A, map degrees ?B] \<and>
      length [?A, ?B] \<noteq> 1 \<and> filter (\<lambda>r. 4 \<le> length r) [?A, ?B] = [?A] \<and>
      collect ?proj ?A = Inr (map degrees ?A)"
    using a ab by simp
  note two = conjunct1 [OF conjunct2 [OF policy [of ?A "map degrees ?A" "[?A, ?B]"
      "[map degrees ?A, map degrees ?B]"]], rule_format, OF h2]
  have h3: "collect (collect ?proj) [?A, ?C] = Inr [map degrees ?A, map degrees ?C] \<and>
      length [?A, ?C] \<noteq> 1 \<and> length (filter (\<lambda>r. 4 \<le> length r) [?A, ?C]) \<noteq> 1"
    using ac by simp
  note three = conjunct1 [OF conjunct2 [OF conjunct2 [OF policy [of _ _ "[?A, ?C]"
      "[map degrees ?A, map degrees ?C]"]]], rule_format, OF h3]
  note four = conjunct2 [OF conjunct2 [OF conjunct2 [OF policy [of _ _ "[?A, ?D]" _ OverflowError]]],
      rule_format, OF ad]
  show ?thesis using a one two three four ad h2 h3 by simp
qed

section \<open>Point in polygon\<close>

lemma fold_min_le: "fold min xs (a :: real) \<le> x \<longleftrightarrow> (\<exists>v \<in> set (a # xs). v \<le> x)"
  by (induction xs arbitrary: a) (auto simp: min_le_iff_disj)

lemma le_fold_max: "x \<le> fold max xs (a :: real) \<longleftrightarrow> (\<exists>v \<in> set (a # xs). x \<le> v)"
  by (induction xs arbitrary: a) (auto simp: le_max_iff_disj)

lemma ray_loop_parity:
  "ray_loop x y ps p1 xinters inside =
     Inr (inside \<noteq> odd (length (filter (edge_toggles x y) (zip (p1 # ps) ps))))"
proof (induction ps arbitrary: p1 xinters inside)
  case Nil
  then show ?case by simp
next
  case (Cons p2 ps)
  obtain p1x p1y where p1: "p1 = (p1x, p1y)" by (cases p1)
  obtain p2x p2y where p2: "p2 = (p2x, p2y)" by (cases p2)
  let ?c = "y > min p1y p2y \<and> y \<le> max p1y p2y \<and> x \<le> max p1x p2x"
  let ?rest = "length (filter (edge_toggles x y) (zip (p2 # ps) ps))"
  show ?case
  proof (cases ?c)
    case False
    then have "\<not> edge_toggles x y (p1, p2)" by (auto simp: edge_toggles_def p1 p2)
    moreover have "ray_loop x y (p2 # ps) p1 xinters inside = ray_loop x y ps p2 xinters inside"
      using False by (simp only: p1 p2 ray_loop.simps if_False)
    ultimately show ?thesis using Cons.IH by simp
  next
    case True
    then have ne: "p1y \<noteq> p2y" by auto
    let ?xi = "(y - p1y) * (p2x - p1x) / (p2y - p1y) + p1x"
    have et: "edge_toggles x y (p1, p2) \<longleftrightarrow> (p1x = p2x \<or> x \<le> ?xi)"
      using True by (simp add: edge_toggles_def p1 p2)
    have step: "ray_loop x y (p2 # ps) p1 xinters inside =
                  (if p1x = p2x then ray_loop x y ps p2 (Some ?xi) (\<not> inside)
                   else ray_loop x y ps p2 (Some ?xi) (if x \<le> ?xi then \<not> inside else inside))"
      using True ne by (simp only: p1 p2 ray_loop.simps if_True Let_def option.case not_False_eq_True simp_thms)
    show ?thesis
    proof (cases "p1x = p2x \<or> x \<le> ?xi")
      case True
      then have "ray_loop x y (p2 # ps) p1 xinters inside = ray_loop x y ps p2 (Some ?xi) (\<not> inside)"
        using step by auto
      then show ?thesis using et True Cons.IH by simp
    next
      case False
      then have "ray_loop x y (p2 # ps) p1 xinters inside = ray_loop x y ps p2 (Some ?xi) inside"
        using step by auto
      then show ?thesis using et False Cons.IH by simp
    qed
  qed
qed

lemma point_in_polygon_parity:
  "point_in_polygon x y polygon_coords = Inr (parity_rule edge_toggles x y polygon_coords)"
proof (cases polygon_coords)
  case Nil
  then show ?thesis by (simp add: point_in_polygon_def parity_rule_def)
next
  case (Cons p ps)
  show ?thesis
  proof (cases "length polygon_coords < 3")
    case True
    then show ?thesis using Cons by (simp add: point_in_polygon_def parity_rule_def)
  next
    case False
    have box: "in_bounding_box x y polygon_coords \<longleftrightarrow>
       \<not> (x < fold min (map fst ps) (fst p) \<or> x > fold max (map fst ps) (fst p) \<or>
          y < fold min (map snd ps) (snd p) \<or> y > fold max (map snd ps) (snd p))"
      unfolding in_bounding_box_def Cons not_less de_Morgan_disj fold_min_le le_fold_max
      by (simp add: conj_ac)
    have edges: "zip (p # ps @ [p]) (ps @ [p]) = ring_edges polygon_coords"
      using zip_append1 [of "p # ps" "[p]" "ps @ [p]"] by (simp add: ring_edges_def Cons)
    show ?thesis using False box edges
      by (simp add: point_in_polygon_def parity_rule_def Cons ray_loop_parity Let_def)
  qed
qed

text \<open>
  Claim C3, amended. After the length check and the bounding box, the point is inside iff
  the number of toggling edges (the last edge from the last vertex back to the first) is
  odd, where an edge toggles iff the point's y is above the lower and at or below the upper
  y-extreme of the edge, the point's x is at or left of the greater x of the edge, and the
  edge is vertical or the point's x is at or left of the intersection of the ray with the
  edge. For the square ring (0,0), (0,10), (10,10), (10,0) the point (5,5) is inside,
  (15,15) is outside and the boundary point (0,5) is outside.
\<close>

theorem point_in_polygon_spec:
  "point_in_polygon x y polygon_coords = Inr (parity_rule edge_toggles x y polygon_coords) \<and>
   point_in_polygon 5 5 [(0, 0), (0, 10), (10, 10), (10, 0)] = Inr True \<and>
   point_in_polygon 15 15 [(0, 0), (0, 10), (10, 10), (10, 0)] = Inr False \<and>
   point_in_polygon 0 5 [(0, 0), (0, 10), (10, 10), (10, 0)] = Inr False"
proof (intro conjI)
  show "point_in_polygon x y polygon_coords = Inr (parity_rule edge_toggles x y polygon_coords)"
    by (rule point_in_polygon_parity)
  show "point_in_polygon 5 5 [(0, 0), (0, 10), (10, 10), (10, 0)] = Inr True"
    by (simp add: point_in_polygon_def)
  show "point_in_polygon 15 15 [(0, 0), (0, 10), (10, 10), (10, 0)] = Inr False"
    by (simp add: point_in_polygon_def)
  show "point_in_polygon 0 5 [(0, 0), (0, 10), (10, 10), (10, 0)] = Inr False"
    by (simp add: point_in_polygon_def)
qed

text \<open>
  Claim C3 does not hold as stated: the y-test of the code includes the upper extreme, so
  the point (5,10) on the upper side of the square is inside for the code and outside for
  the rule with the strict test; and a vertical edge does not toggle whenever the y-test
  passes, or (5,5) would be outside.
\<close>

theorem point_in_polygon_not_documented_rule:
  "point_in_polygon 5 10 [(0, 0), (0, 10), (10, 10), (10, 0)] = Inr True \<and>
   \<not> parity_rule documented_toggle 5 10 [(0, 0), (0, 10), (10, 10), (10, 0)] \<and>
   point_in_polygon 5 5 [(0, 0), (0, 10), (10, 10), (10, 0)] = Inr True \<and>
   \<not> parity_rule documented_toggle 5 5 [(0, 0), (0, 10), (10, 10), (10, 0)]"
  by (simp add: point_in_polygon_def parity_rule_def documented_toggle_def ring_edges_def
        in_bounding_box_def)

section \<open>Acquisition: retries, partial failure and the cache\<close>

lemma retry_loop_exhausted: "retry_loop net q (Suc (Suc (Suc 0))) a = a"
  by (subst retry_loop.simps) (simp add: max_retries_def)

lemma retry_loop_third: "retry_loop net q (Suc (Suc 0)) a = documented_retry (Suc 0) net q a"
  by (subst retry_loop.simps)
     (simp add: max_retries_def retry_loop_exhausted retryable_def backoff_def settle_def Let_def
        split: response.splits option.splits)

lemma retry_loop_second: "retry_loop net q (Suc 0) a = documented_retry (Suc (Suc 0)) net q a"
  by (subst retry_loop.simps, subst documented_retry.simps)
     (simp add: max_retries_def retry_loop_third retryable_def backoff_def settle_def Let_def
        split: response.splits option.splits)

lemma retry_loop_documented: "retry_loop net q 0 a = documented_retry 3 net q a"
  unfolding numeral_3_eq_3
  by (subst retry_loop.simps, subst documented_retry.simps)
     (simp add: max_retries_def retry_loop_second retryable_def backoff_def settle_def Let_def
        split: response.splits option.splits)

lemma fetch_state_documented:
  "fetch_state net fips_code a = documented_retry (Suc 0) net (StateQuery fips_code) a"
  by (simp add: fetch_state_def retryable_def settle_def Let_def split: response.splits option.splits)

lemma settle_effect:
  "settle r a = merge_outcome a (settle r (fresh (events a)))"
  by (cases a) (simp add: settle_def merge_outcome_def fresh_def split: response.splits option.splits)

lemma documented_retry_settle:
  "\<not> retryable (net (events a) q) \<Longrightarrow>
     documented_retry (Suc k) net q a = settle (net (events a) q) (a\<lparr>events := events a @ [Request q]\<rparr>)"
  by (simp add: Let_def)

lemma documented_retry_last:
  "retryable (net (events a) q) \<Longrightarrow>
     documented_retry (Suc 0) net q a = a\<lparr>events := events a @ [Request q], failed := failed a + 1\<rparr>"
  by (simp add: Let_def)

lemma documented_retry_again:
  "retryable (net (events a) q) \<Longrightarrow>
     documented_retry (Suc (Suc k)) net q a =
       documented_retry (Suc k) net q
         (a\<lparr>events := events a @ [Request q, Sleep (backoff (net (events a) q))]\<rparr>)"
  by (simp add: Let_def)

lemma merge_outcome_events [simp]: "merge_outcome (a\<lparr>events := evs\<rparr>) b = merge_outcome a b"
  by (simp add: merge_outcome_def)

lemma events_fresh [simp]: "events (fresh evs) = evs"
  by (simp add: fresh_def)

lemma fresh_events_update [simp]: "(fresh evs)\<lparr>events := evs'\<rparr> = fresh evs'"
  by (simp add: fresh_def)

lemma documented_retry_effect:
  "documented_retry (Suc k) net q a =
     merge_outcome a (documented_retry (Suc k) net q (fresh (events a)))"
proof (induction k arbitrary: a)
  case 0
  let ?r = "net (events a) q"
  show ?case
  proof (cases "retryable ?r")
    case True
    have "documented_retry (Suc 0) net q (fresh (events a)) =
            (fresh (events a))\<lparr>events := events a @ [Request q], failed := failed (fresh (events a)) + 1\<rparr>"
      using True documented_retry_last [of net "fresh (events a)" q] by simp
    then show ?thesis using True documented_retry_last [of net a q]
      by (cases a) (simp add: merge_outcome_def fresh_def)
  next
    case False
    have "documented_retry (Suc 0) net q (fresh (events a)) =
            settle ?r (fresh (events a @ [Request q]))"
      using False documented_retry_settle [of net "fresh (events a)" q 0] by simp
    then show ?thesis
      using False documented_retry_settle [of net a q 0]
            settle_effect [of ?r "a\<lparr>events := events a @ [Request q]\<rparr>"]
      by simp
  qed
next
  case (Suc k)
  let ?r = "net (events a) q"
  show ?case
  proof (cases "retryable ?r")
    case False
    have "documented_retry (Suc (Suc k)) net q (fresh (events a)) =
            settle ?r (fresh (events a @ [Request q]))"
      using False documented_retry_settle [of net "fresh (events a)" q "Suc k"] by simp
    then show ?thesis
      using False documented_retry_settle [of net a q "Suc k"]
            settle_effect [of ?r "a\<lparr>events := events a @ [Request q]\<rparr>"]
      by simp
  next
    case True
    let ?evs = "events a @ [Request q, Sleep (backoff ?r)]"
    have l: "documented_retry (Suc (Suc k)) net q a = documented_retry (Suc k) net q (a\<lparr>events := ?evs\<rparr>)"
      using True documented_retry_again [of net a q k] by simp
    have r: "documented_retry (Suc (Suc k)) net q (fresh (events a)) =
               documented_retry (Suc k) net q (fresh ?evs)"
      using True documented_retry_again [of net "fresh (events a)" q k] by simp
    have "documented_retry (Suc k) net q (a\<lparr>events := ?evs\<rparr>) =
            merge_outcome (a\<lparr>events := ?evs\<rparr>) (documented_retry (Suc k) net q (fresh ?evs))"
      using Suc.IH [of "a\<lparr>events := ?evs\<rparr>"] by simp
    then show ?thesis using l r by simp
  qed
qed

lemma retry_loop_effect:
  "retry_loop net q 0 a = merge_outcome a (retry_loop net q 0 (fresh (events a)))"
  unfolding retry_loop_documented numeral_3_eq_3 by (rule documented_retry_effect)

lemma fetch_state_effect:
  "fetch_state net fips_code a = merge_outcome a (fetch_state net fips_code (fresh (events a)))"
  unfolding fetch_state_documented by (rule documented_retry_effect)

lemma fetch_batches_outcomes:
  "all_features (fetch_batches net rs a) = all_features a @ concat (batch_outcomes net (events a) rs) \<and>
   successful (fetch_batches net rs a) =
     successful a + length (filter (\<lambda>out. out \<noteq> []) (batch_outcomes net (events a) rs)) \<and>
   failed (fetch_batches net rs a) =
     failed a + length (filter (\<lambda>out. out = []) (batch_outcomes net (events a) rs))"
proof (induction rs arbitrary: a)
  case Nil
  then show ?case by simp
next
  case (Cons r rs)
  obtain s e where r: "r = (s, e)" by (cases r)
  let ?b = "retry_loop net (ObjectIdQuery s e) 0 (fresh (events a))"
  have step: "retry_loop net (ObjectIdQuery s e) 0 a = merge_outcome a ?b"
    by (rule retry_loop_effect)
  show ?case
    using Cons.IH [of "merge_outcome a ?b"]
    by (simp add: r step Let_def) (simp add: merge_outcome_def)
qed

lemma fetch_states_outcomes:
  "all_features (fetch_states net codes a) = all_features a @ concat (state_outcomes net (events a) codes) \<and>
   successful (fetch_states net codes a) =
     successful a + length (filter (\<lambda>out. out \<noteq> []) (state_outcomes net (events a) codes)) \<and>
   failed (fetch_states net codes a) =
     failed a + length (filter (\<lambda>out. out = []) (state_outcomes net (events a) codes))"
proof (induction codes arbitrary: a)
  case Nil
  then show ?case by simp
next
  case (Cons c codes)
  let ?b = "fetch_state net c (fresh (events a))"
  have step: "fetch_state net c a = merge_outcome a ?b"
    by (rule fetch_state_effect)
  show ?case
    using Cons.IH [of "merge_outcome a ?b"]
    by (simp add: step Let_def) (simp add: merge_outcome_def)
qed

lemma events_fetch_state: "events (fetch_state net c a) = events a @ [Request (StateQuery c)]"
  by (simp add: fetch_state_def Let_def split: response.splits option.splits)

lemma events_fetch_states:
  "events (fetch_states net codes a) = events a @ map (\<lambda>c. Request (StateQuery c)) codes"
  by (induction codes arbitrary: a) (simp_all add: events_fetch_state)

lemma load_counties_data_unfold:
  assumes "net (trace m) CountQuery = Json count_data" "\<not> has_error count_data"
    "count_field count_data = Some n" "n \<noteq> 0"
  shows "load_counties_data net m =
     (let a = fetch_batches net (batch_ranges n) (fresh (trace m @ [Request CountQuery]));
          evs = events a @ [Summary (successful a) (failed a)]
      in if all_features a = [] then (False, m\<lparr>trace := evs\<rparr>)
         else
           (case convert_to_geojson (all_features a) of
              Inl e \<Rightarrow> (False, m\<lparr>trace := evs\<rparr>)
            | Inr collection \<Rightarrow>
                (True, m\<lparr>counties_data := Some (length (heap m)),
                            heap := heap m @ [collection],
                            trace := evs\<rparr>)))"
  using assms by (simp add: load_counties_data_def fresh_def Let_def split: sum.splits)

lemma load_counties_for_region_unfold:
  assumes "counties_by_region m region = None" "states_data m = Some states"
    "codes = state_fips_codes states (get_states_in_region region)" "codes \<noteq> []"
  shows "load_counties_for_region net region m =
     (let a = fetch_states net codes (fresh (trace m));
          evs = events a @ [Summary (successful a) (failed a)]
      in if all_features a = [] then (False, m\<lparr>trace := evs\<rparr>)
         else
           (case convert_to_geojson (all_features a) of
              Inl e \<Rightarrow> (False, m\<lparr>trace := evs\<rparr>)
            | Inr collection \<Rightarrow>
                (True, m\<lparr>counties_data := Some (length (heap m)),
                            counties_by_region := (counties_by_region m)(region \<mapsto> length (heap m)),
                            current_region := Some region,
                            heap := heap m @ [collection],
                            trace := evs\<rparr>)))"
proof -
  have "get_states_in_region region \<noteq> []"
    using assms(3,4) by (auto simp: state_fips_codes_def)
  then show ?thesis
    using assms by (simp add: load_counties_for_region_def fresh_def Let_def)
qed

text \<open>
  Claim C1, amended. For both loaders, once the partitions are known (a valid non-zero
  count for the numeric-ID batching; a cache miss with at least one state code for the
  per-state batching), the call succeeds iff the partitions together yield at least one
  record and the conversion of the records obtained does not raise. When it succeeds, the
  collection it stores as \<open>counties_data\<close> is the conversion of the records of all
  partitions that yielded any, in order; when it fails, nothing is stored. In both cases
  the summary it reports counts the partitions that yielded records and those that failed.
\<close>

theorem partial_failure_tolerated:
  "(net (trace m) CountQuery = Json count_data \<and> \<not> has_error count_data \<and>
    count_field count_data = Some n \<and> n \<noteq> 0 \<and>
    outs = batch_outcomes net (trace m @ [Request CountQuery]) (batch_ranges n) \<and>
    load_counties_data net m = (ok, m') \<longrightarrow>
      ok = (concat outs \<noteq> [] \<and> (\<exists>collection. convert_to_geojson (concat outs) = Inr collection)) \<and>
      (ok \<longrightarrow> (\<exists>ref. counties_data m' = Some ref \<and> ref < length (heap m') \<and>
                    convert_to_geojson (concat outs) = Inr (heap m' ! ref))) \<and>
      (\<not> ok \<longrightarrow> counties_data m' = counties_data m \<and> heap m' = heap m) \<and>
      last (trace m') =
        Summary (length (filter (\<lambda>out. out \<noteq> []) outs)) (length (filter (\<lambda>out. out = []) outs))) \<and>
   (counties_by_region m region = None \<and> states_data m = Some states \<and>
    codes = state_fips_codes states (get_states_in_region region) \<and> codes \<noteq> [] \<and>
    outs = state_outcomes net (trace m) codes \<and>
    load_counties_for_region net region m = (ok, m') \<longrightarrow>
      ok = (concat outs \<noteq> [] \<and> (\<exists>collection. convert_to_geojson (concat outs) = Inr collection)) \<and>
      (ok \<longrightarrow> (\<exists>ref. counties_data m' = Some ref \<and> ref < length (heap m') \<and>
                    convert_to_geojson (concat outs) = Inr (heap m' ! ref))) \<and>
      (\<not> ok \<longrightarrow> counties_data m' = counties_data m \<and> heap m' = heap m) \<and>
      last (trace m') =
        Summary (length (filter (\<lambda>out. out \<noteq> []) outs)) (length (filter (\<lambda>out. out = []) outs)))"
proof (rule conjI; rule impI; elim conjE)
  assume h: "net (trace m) CountQuery = Json count_data" "\<not> has_error count_data"
    "count_field count_data = Some n" "n \<noteq> 0"
    and outs: "outs = batch_outcomes net (trace m @ [Request CountQuery]) (batch_ranges n)"
    and run: "load_counties_data net m = (ok, m')"
  let ?a = "fetch_batches net (batch_ranges n) (fresh (trace m @ [Request CountQuery]))"
  let ?evs = "events ?a @ [Summary (successful ?a) (failed ?a)]"
  define recs where "recs = concat outs"
  from fetch_batches_outcomes [of net "batch_ranges n" "fresh (trace m @ [Request CountQuery])"]
  have a: "all_features ?a = recs"
    "successful ?a = length (filter (\<lambda>out. out \<noteq> []) outs)"
    "failed ?a = length (filter (\<lambda>out. out = []) outs)"
    by (simp_all add: outs fresh_def recs_def)
  have "load_counties_data net m =
     (if all_features ?a = [] then (False, m\<lparr>trace := ?evs\<rparr>)
      else
        (case convert_to_geojson (all_features ?a) of
           Inl e \<Rightarrow> (False, m\<lparr>trace := ?evs\<rparr>)
         | Inr collection \<Rightarrow>
             (True, m\<lparr>counties_data := Some (length (heap m)),
                         heap := heap m @ [collection],
                         trace := ?evs\<rparr>)))"
    using load_counties_data_unfold [of net m count_data n, OF h] unfolding Let_def .
  then have res: "(ok, m') =
     (if recs = [] then (False, m\<lparr>trace := ?evs\<rparr>)
      else
        (case convert_to_geojson recs of
           Inl e \<Rightarrow> (False, m\<lparr>trace := ?evs\<rparr>)
         | Inr collection \<Rightarrow>
             (True, m\<lparr>counties_data := Some (length (heap m)),
                         heap := heap m @ [collection],
                         trace := ?evs\<rparr>)))"
    unfolding a(1) run by simp
  have "ok = (recs \<noteq> [] \<and> (\<exists>collection. convert_to_geojson recs = Inr collection)) \<and>
      (ok \<longrightarrow> (\<exists>ref. counties_data m' = Some ref \<and> ref < length (heap m') \<and>
                    convert_to_geojson recs = Inr (heap m' ! ref))) \<and>
      (\<not> ok \<longrightarrow> counties_data m' = counties_data m \<and> heap m' = heap m) \<and>
      last (trace m') =
        Summary (length (filter (\<lambda>out. out \<noteq> []) outs)) (length (filter (\<lambda>out. out = []) outs))"
  proof (cases "recs = []")
    case True
    then show ?thesis using res a(2,3) by simp
  next
    case False
    show ?thesis
    proof (cases "convert_to_geojson recs")
      case (Inl e)
      then show ?thesis using res a(2,3) False by simp
    next
      case (Inr collection)
      then show ?thesis using res a(2,3) False by simp
    qed
  qed
  then show "ok = (concat outs \<noteq> [] \<and> (\<exists>collection. convert_to_geojson (concat outs) = Inr collection)) \<and>
      (ok \<longrightarrow> (\<exists>ref. counties_data m' = Some ref \<and> ref < length (heap m') \<and>
                    convert_to_geojson (concat outs) = Inr (heap m' ! ref))) \<and>
      (\<not> ok \<longrightarrow> counties_data m' = counties_data m \<and> heap m' = heap m) \<and>
      last (trace m') =
        Summary (length (filter (\<lambda>out. out \<noteq> []) outs)) (length (filter (\<lambda>out. out = []) outs))"
    unfolding recs_def .
next
  assume h: "counties_by_region m region = None" "states_data m = Some states"
    "codes = state_fips_codes states (get_states_in_region region)" "codes \<noteq> []"
    and outs: "outs = state_outcomes net (trace m) codes"
    and run: "load_counties_for_region net region m = (ok, m')"
  let ?a = "fetch_states net codes (fresh (trace m))"
  let ?evs = "events ?a @ [Summary (successful ?a) (failed ?a)]"
  define recs where "recs = concat outs"
  from fetch_states_outcomes [of net codes "fresh (trace m)"]
  have a: "all_features ?a = recs"
    "successful ?a = length (filter (\<lambda>out. out \<noteq> []) outs)"
    "failed ?a = length (filter (\<lambda>out. out = []) outs)"
    by (simp_all add: outs fresh_def recs_def)
  have "load_counties_for_region net region m =
     (if all_features ?a = [] then (False, m\<lparr>trace := ?evs\<rparr>)
      else
        (case convert_to_geojson (all_features ?a) of
           Inl e \<Rightarrow> (False, m\<lparr>trace := ?evs\<rparr>)
         | Inr collection \<Rightarrow>
             (True, m\<lparr>counties_data := Some (length (heap m)),
                         counties_by_region := (counties_by_region m)(region \<mapsto> length (heap m)),
                         current_region := Some region,
                         heap := heap m @ [collection],
                         trace := ?evs\<rparr>)))"
    using load_counties_for_region_unfold [of m region states codes net, OF h] unfolding Let_def .
  then have res: "(ok, m') =
     (if recs = [] then (False, m\<lparr>trace := ?evs\<rparr>)
      else
        (case convert_to_geojson recs of
           Inl e \<Rightarrow> (False, m\<lparr>trace := ?evs\<rparr>)
         | Inr collection \<Rightarrow>
             (True, m\<lparr>counties_data := Some (length (heap m)),
                         counties_by_region := (counties_by_region m)(region \<mapsto> length (heap m)),
                         current_region := Some region,
                         heap := heap m @ [collection],
                         trace := ?evs\<rparr>)))"
    unfolding a(1) run by simp
  have "ok = (recs \<noteq> [] \<and> (\<exists>collection. convert_to_geojson recs = Inr collection)) \<and>
      (ok \<longrightarrow> (\<exists>ref. counties_data m' = Some ref \<and> ref < length (heap m') \<and>
                    convert_to_geojson recs = Inr (heap m' ! ref))) \<and>
      (\<not> ok \<longrightarrow> counties_data m' = counties_data m \<and> heap m' = heap m) \<and>
      last (trace m') =
        Summary (length (filter (\<lambda>out. out \<noteq> []) outs)) (length (filter (\<lambda>out. out = []) outs))"
  proof (cases "recs = []")
    case True
    then show ?thesis using res a(2,3) by simp
  next
    case False
    show ?thesis
    proof (cases "convert_to_geojson recs")
      case (Inl e)
      then show ?thesis using res a(2,3) False by simp
    next
      case (Inr collection)
      then show ?thesis using res a(2,3) False by simp
    qed
  qed
  then show "ok = (concat outs \<noteq> [] \<and> (\<exists>collection. convert_to_geojson (concat outs) = Inr collection)) \<and>
      (ok \<longrightarrow> (\<exists>ref. counties_data m' = Some ref \<and> ref < length (heap m') \<and>
                    convert_to_geojson (concat outs) = Inr (heap m' ! ref))) \<and>
      (\<not> ok \<longrightarrow> counties_data m' = counties_data m \<and> heap m' = heap m) \<and>
      last (trace m') =
        Summary (length (filter (\<lambda>out. out \<noteq> []) outs)) (length (filter (\<lambda>out. out = []) outs))"
    unfolding recs_def .
qed

lemma convert_county: "convert_feature (county fips_code) = Inr (county_feature fips_code)"
  by (simp add: convert_feature_def convert_arcgis_geometry_to_geojson_def county_def
        county_feature_def)

lemma convert_counties:
  "convert_to_geojson (map county fips_codes) = Inr (map county_feature fips_codes)"
  unfolding convert_to_geojson_def
  by (induction fips_codes) (simp_all add: convert_county)

lemma convert_far_county: "convert_feature (far_county fips_code) = Inl OverflowError"
proof -
  have "web_mercator_to_latlon 0 10000000000 = Inl OverflowError"
    using far_north_overflows by (rule web_mercator_to_latlon_raises)
  then show ?thesis
    by (simp add: convert_feature_def convert_arcgis_geometry_to_geojson_def far_county_def)
qed

lemma convert_far_counties:
  "convert_to_geojson (far_county fips_code # rest) = Inl OverflowError"
  by (simp add: convert_to_geojson_def convert_far_county)

lemma southwest_codes:
  "state_fips_codes southwest_states (get_states_in_region ''Southwest'') = [''40'', ''48'', ''35'', ''04'']"
  by (simp add: state_fips_codes_def southwest_states_def get_states_in_region_def REGIONS_def)

lemma southwest_outcomes:
  "state_outcomes texas_down [] [''40'', ''48'', ''35'', ''04''] =
     [[county ''40''], [], [county ''35''], [county ''04'']]"
  by (simp add: fetch_state_def texas_down_def fresh_def)

lemma southwest_run:
  "load_counties_for_region texas_down ''Southwest'' states_loaded =
     (True, states_loaded
        \<lparr>counties_data := Some 0,
         counties_by_region := [''Southwest'' \<mapsto> 0],
         current_region := Some ''Southwest'',
         heap := [[county_feature ''40'', county_feature ''35'', county_feature ''04'']],
         trace := [Request (StateQuery ''40''), Request (StateQuery ''48''),
                   Request (StateQuery ''35''), Request (StateQuery ''04''), Summary 3 1]\<rparr>)"
proof -
  have cached: "counties_by_region states_loaded ''Southwest'' = None"
    and st: "states_data states_loaded = Some southwest_states"
    and others: "heap states_loaded = []" "trace states_loaded = []"
      "counties_by_region states_loaded = Map.empty"
    by (simp_all add: states_loaded_def)
  have a: "fetch_state texas_down ''04'' (fetch_state texas_down ''35''
              (fetch_state texas_down ''48'' (fetch_state texas_down ''40'' (fresh [])))) =
      \<lparr>all_features = [county ''40'', county ''35'', county ''04''], successful = 3, failed = 1,
       events = [Request (StateQuery ''40''), Request (StateQuery ''48''),
                 Request (StateQuery ''35''), Request (StateQuery ''04'')]\<rparr>"
    by (simp add: fetch_state_def texas_down_def fresh_def)
  show ?thesis
    using load_counties_for_region_unfold [of states_loaded "''Southwest''" southwest_states
        "[''40'', ''48'', ''35'', ''04'']" texas_down] cached st southwest_codes
    by (simp add: a others convert_counties [of "[''40'', ''35'', ''04'']", simplified])
qed

lemma objectid_outcomes:
  "batch_outcomes texas_down [Request CountQuery] (batch_ranges 320) =
     [[county ''00''], [], [county ''00'']]"
proof -
  have timeouts: "retry_loop texas_down (ObjectIdQuery 151 300) 0 (fresh evs) =
      \<lparr>all_features = [], successful = 0, failed = 1,
       events = evs @ [Request (ObjectIdQuery 151 300), Sleep 2, Request (ObjectIdQuery 151 300),
                       Sleep 2, Request (ObjectIdQuery 151 300)]\<rparr>" for evs
    unfolding retry_loop_documented numeral_3_eq_3
    by (simp add: texas_down_def retryable_def backoff_def fresh_def)
  have ok: "retry_loop texas_down (ObjectIdQuery s e) 0 (fresh evs) =
      \<lparr>all_features = [county ''00''], successful = 1, failed = 0,
       events = evs @ [Request (ObjectIdQuery s e)]\<rparr>" if "s \<noteq> 151" for s e evs
    unfolding retry_loop_documented numeral_3_eq_3 using that
    by (simp add: texas_down_def retryable_def settle_def fresh_def)
  show ?thesis
    by (simp add: batch_ranges_320 timeouts ok)
qed

lemma far_outcomes:
  "state_outcomes out_of_range [] [''40'', ''48'', ''35'', ''04''] =
     [[far_county ''40''], [far_county ''48''], [far_county ''35''], [far_county ''04'']]"
  by (simp add: fetch_state_def out_of_range_def fresh_def)

lemma far_run:
  "load_counties_for_region out_of_range ''Southwest'' states_loaded =
     (False, states_loaded
        \<lparr>trace := [Request (StateQuery ''40''), Request (StateQuery ''48''),
                   Request (StateQuery ''35''), Request (StateQuery ''04''), Summary 4 0]\<rparr>)"
proof -
  have cached: "counties_by_region states_loaded ''Southwest'' = None"
    and st: "states_data states_loaded = Some southwest_states"
    and tr: "trace states_loaded = []"
    by (simp_all add: states_loaded_def)
  have a: "fetch_state out_of_range ''04'' (fetch_state out_of_range ''35''
              (fetch_state out_of_range ''48'' (fetch_state out_of_range ''40'' (fresh [])))) =
      \<lparr>all_features = [far_county ''40'', far_county ''48'', far_county ''35'', far_county ''04''],
       successful = 4, failed = 0,
       events = [Request (StateQuery ''40''), Request (StateQuery ''48''),
                 Request (StateQuery ''35''), Request (StateQuery ''04'')]\<rparr>"
    by (simp add: fetch_state_def out_of_range_def fresh_def)
  show ?thesis
    using load_counties_for_region_unfold [of states_loaded "''Southwest''" southwest_states
        "[''40'', ''48'', ''35'', ''04'']" out_of_range] cached st southwest_codes
    by (simp add: a tr convert_far_counties)
qed

lemma far_batches:
  "fetch_batches out_of_range (batch_ranges 320) (fresh [Request CountQuery]) =
     \<lparr>all_features = [far_county ''00'', far_county ''00'', far_county ''00''],
      successful = 3, failed = 0,
      events = [Request CountQuery, Request (ObjectIdQuery 1 150), Request (ObjectIdQuery 151 300),
                Request (ObjectIdQuery 301 320)]\<rparr>"
proof -
  have ok: "retry_loop out_of_range (ObjectIdQuery s e) 0 a =
      a\<lparr>events := events a @ [Request (ObjectIdQuery s e)],
        all_features := all_features a @ [far_county ''00''],
        successful := successful a + 1\<rparr>" for s e a
    unfolding retry_loop_documented numeral_3_eq_3
    by (simp add: out_of_range_def retryable_def settle_def)
  show ?thesis by (simp add: batch_ranges_320 ok fresh_def)
qed

lemma far_numeric_run:
  "load_counties_data out_of_range states_loaded =
     (False, states_loaded
        \<lparr>trace := [Request CountQuery, Request (ObjectIdQuery 1 150),
                   Request (ObjectIdQuery 151 300), Request (ObjectIdQuery 301 320),
                   Summary 3 0]\<rparr>)"
proof -
  let ?cd = "\<lparr>has_error = False, features = None, count_field = Some 320\<rparr>"
  have tr: "trace states_loaded = []" by (simp add: states_loaded_def)
  have c: "out_of_range (trace states_loaded) CountQuery = Json ?cd"
    by (simp add: out_of_range_def)
  show ?thesis
    using load_counties_data_unfold [of out_of_range states_loaded ?cd 320] c
    by (simp add: tr far_batches convert_far_counties)
qed

text \<open>
  Claim C1 does not hold as stated: when every partition yields a record but the records
  lie at \<open>y = 10^10\<close>, where the projection raises, both loaders report all partitions
  as successful in their summary and return failure, although records were obtained.
\<close>

theorem records_obtained_yet_failure:
  "state_outcomes out_of_range (trace states_loaded)
      (state_fips_codes southwest_states (get_states_in_region ''Southwest'')) =
     [[far_county ''40''], [far_county ''48''], [far_county ''35''], [far_county ''04'']] \<and>
   load_counties_for_region out_of_range ''Southwest'' states_loaded =
     (False, states_loaded
        \<lparr>trace := [Request (StateQuery ''40''), Request (StateQuery ''48''),
                   Request (StateQuery ''35''), Request (StateQuery ''04''), Summary 4 0]\<rparr>) \<and>
   load_counties_data out_of_range states_loaded =
     (False, states_loaded
        \<lparr>trace := [Request CountQuery, Request (ObjectIdQuery 1 150),
                   Request (ObjectIdQuery 151 300), Request (ObjectIdQuery 301 320),
                   Summary 3 0]\<rparr>)"
proof -
  have tr: "trace states_loaded = []" by (simp add: states_loaded_def)
  have "state_outcomes out_of_range (trace states_loaded)
      (state_fips_codes southwest_states (get_states_in_region ''Southwest'')) =
     [[far_county ''40''], [far_county ''48''], [far_county ''35''], [far_county ''04'']]"
    by (simp only: tr southwest_codes far_outcomes)
  then show ?thesis using far_run far_numeric_run by simp
qed

theorem partial_failure_tolerated_witness:
  "state_outcomes texas_down (trace states_loaded)
      (state_fips_codes southwest_states (get_states_in_region ''Southwest'')) =
     [[county ''40''], [], [county ''35''], [county ''04'']] \<and>
   fst (load_counties_for_region texas_down ''Southwest'' states_loaded) \<and>
   (\<exists>ref. counties_data (snd (load_counties_for_region texas_down ''Southwest'' states_loaded)) = Some ref \<and>
      convert_to_geojson [county ''40'', county ''35'', county ''04''] =
        Inr (heap (snd (load_counties_for_region texas_down ''Southwest'' states_loaded)) ! ref)) \<and>
   last (trace (snd (load_counties_for_region texas_down ''Southwest'' states_loaded))) = Summary 3 1 \<and>
   batch_outcomes texas_down (trace states_loaded @ [Request CountQuery]) (batch_ranges 320) =
     [[county ''00''], [], [county ''00'']] \<and>
   fst (load_counties_data texas_down states_loaded) \<and>
   (\<exists>ref. counties_data (snd (load_counties_data texas_down states_loaded)) = Some ref \<and>
      convert_to_geojson [county ''00'', county ''00''] =
        Inr (heap (snd (load_counties_data texas_down states_loaded)) ! ref)) \<and>
   last (trace (snd (load_counties_data texas_down states_loaded))) = Summary 2 1 \<and>
   state_outcomes out_of_range (trace states_loaded)
      (state_fips_codes southwest_states (get_states_in_region ''Southwest'')) =
     [[far_county ''40''], [far_county ''48''], [far_county ''35''], [far_county ''04'']] \<and>
   \<not> fst (load_counties_for_region out_of_range ''Southwest'' states_loaded) \<and>
   counties_data (snd (load_counties_for_region out_of_range ''Southwest'' states_loaded)) =
     counties_data states_loaded \<and>
   heap (snd (load_counties_for_region out_of_range ''Southwest'' states_loaded)) = heap states_loaded \<and>
   last (trace (snd (load_counties_for_region out_of_range ''Southwest'' states_loaded))) = Summary 4 0"
proof -
  let ?R = "load_counties_for_region texas_down ''Southwest'' states_loaded"
  let ?F = "load_counties_for_region out_of_range ''Southwest'' states_loaded"
  let ?N = "load_counties_data texas_down states_loaded"
  let ?cd = "\<lparr>has_error = False, features = None, count_field = Some 320\<rparr>"
  let ?codes = "[''40'', ''48'', ''35'', ''04'']"
  let ?outsR = "[[county ''40''], [], [county ''35''], [county ''04'']]"
  let ?outsF = "[[far_county ''40''], [far_county ''48''], [far_county ''35''], [far_county ''04'']]"
  let ?outsN = "[[county ''00''], [], [county ''00'']]"
  have tr: "trace states_loaded = []" by (simp add: states_loaded_def)
  have outsR: "state_outcomes texas_down (trace states_loaded)
      (state_fips_codes southwest_states (get_states_in_region ''Southwest'')) = ?outsR"
    by (simp only: tr southwest_codes southwest_outcomes)
  have outsF: "state_outcomes out_of_range (trace states_loaded)
      (state_fips_codes southwest_states (get_states_in_region ''Southwest'')) = ?outsF"
    by (simp only: tr southwest_codes far_outcomes)
  have outsN: "batch_outcomes texas_down (trace states_loaded @ [Request CountQuery]) (batch_ranges 320) =
     ?outsN"
    by (simp only: tr append_Nil objectid_outcomes)
  have base: "counties_by_region states_loaded ''Southwest'' = None"
    "states_data states_loaded = Some southwest_states"
    by (simp_all add: states_loaded_def)
  have hypR: "counties_by_region states_loaded ''Southwest'' = None \<and>
      states_data states_loaded = Some southwest_states \<and>
      ?codes = state_fips_codes southwest_states (get_states_in_region ''Southwest'') \<and>
      ?codes \<noteq> [] \<and> ?outsR = state_outcomes texas_down (trace states_loaded) ?codes \<and>
      ?R = (fst ?R, snd ?R)"
    using outsR base by (simp add: southwest_codes)
  have hypF: "counties_by_region states_loaded ''Southwest'' = None \<and>
      states_data states_loaded = Some southwest_states \<and>
      ?codes = state_fips_codes southwest_states (get_states_in_region ''Southwest'') \<and>
      ?codes \<noteq> [] \<and> ?outsF = state_outcomes out_of_range (trace states_loaded) ?codes \<and>
      ?F = (fst ?F, snd ?F)"
    using outsF base by (simp add: southwest_codes)
  have hypN: "texas_down (trace states_loaded) CountQuery = Json ?cd \<and> \<not> has_error ?cd \<and>
      count_field ?cd = Some 320 \<and> (320 :: int) \<noteq> 0 \<and>
      ?outsN = batch_outcomes texas_down (trace states_loaded @ [Request CountQuery]) (batch_ranges 320) \<and>
      ?N = (fst ?N, snd ?N)"
    using outsN by (simp add: texas_down_def)
  note region = conjunct2 [OF partial_failure_tolerated
      [of texas_down states_loaded _ _ ?outsR "fst ?R" "snd ?R" "''Southwest''" southwest_states ?codes],
      rule_format, OF hypR]
  note failing = conjunct2 [OF partial_failure_tolerated
      [of out_of_range states_loaded _ _ ?outsF "fst ?F" "snd ?F" "''Southwest''" southwest_states ?codes],
      rule_format, OF hypF]
  note numeric = conjunct1 [OF partial_failure_tolerated
      [of texas_down states_loaded ?cd 320 ?outsN "fst ?N" "snd ?N"],
      rule_format, OF hypN]
  have convR: "convert_to_geojson (concat ?outsR) =
      Inr [county_feature ''40'', county_feature ''35'', county_feature ''04'']"
    using convert_counties [of "[''40'', ''35'', ''04'']"] by simp
  have convN: "convert_to_geojson (concat ?outsN) = Inr [county_feature ''00'', county_feature ''00'']"
    using convert_counties [of "[''00'', ''00'']"] by simp
  have convF: "convert_to_geojson (concat ?outsF) = Inl OverflowError"
    by (simp add: convert_far_counties)
  have okR: "fst ?R" using region convR by simp
  have okN: "fst ?N" using numeric convN by simp
  have notF: "\<not> fst ?F" using failing convF by simp
  show ?thesis
    using region numeric failing okR okN notF outsR outsN outsF by auto
qed

lemma length_batch_outcomes: "length (batch_outcomes net evs rs) = length rs"
  by (induction rs arbitrary: evs) (auto simp: Let_def)

lemma length_state_outcomes: "length (state_outcomes net evs codes) = length codes"
  by (induction codes arbitrary: evs) (auto simp: Let_def)

text \<open>
  Claim C5, amended. The loop of the numeric-ID batching is the documented policy with 3
  attempts: an error response, a timeout or a transport failure is retried after a fixed
  back-off (1 after an error response, 2 after an exception), and only the third such
  failure marks the batch failed and omits its records; a valid response settles the batch
  at once (as failed when it holds no record). The per-state batching is the policy with 1
  attempt: a state is requested once, and any failure marks it failed at once. In both
  loops every partition is counted exactly once, as successful or as failed, so the
  acquisition goes on with the remaining partitions after a failure. Against a service
  that always times out, and against one that always answers with an error, a batch of the
  numeric-ID batching sends three requests with two back-offs between them and is then
  marked failed.
\<close>

theorem retry_policy:
  "retry_loop net q 0 a = documented_retry 3 net q a \<and>
   fetch_state net fips_code a = documented_retry 1 net (StateQuery fips_code) a \<and>
   successful (fetch_batches net rs a) + failed (fetch_batches net rs a) =
     successful a + failed a + length rs \<and>
   successful (fetch_states net codes a) + failed (fetch_states net codes a) =
     successful a + failed a + length codes \<and>
   retry_loop all_down (ObjectIdQuery 1 150) 0 (fresh []) =
     \<lparr>all_features = [], successful = 0, failed = 1,
      events = [Request (ObjectIdQuery 1 150), Sleep 2, Request (ObjectIdQuery 1 150), Sleep 2,
                Request (ObjectIdQuery 1 150)]\<rparr> \<and>
   retry_loop erroring (ObjectIdQuery 1 150) 0 (fresh []) =
     \<lparr>all_features = [], successful = 0, failed = 1,
      events = [Request (ObjectIdQuery 1 150), Sleep 1, Request (ObjectIdQuery 1 150), Sleep 1,
                Request (ObjectIdQuery 1 150)]\<rparr>"
proof (intro conjI)
  show "retry_loop all_down (ObjectIdQuery 1 150) 0 (fresh []) =
     \<lparr>all_features = [], successful = 0, failed = 1,
      events = [Request (ObjectIdQuery 1 150), Sleep 2, Request (ObjectIdQuery 1 150), Sleep 2,
                Request (ObjectIdQuery 1 150)]\<rparr>"
    unfolding retry_loop_documented numeral_3_eq_3
    by (simp add: all_down_def retryable_def backoff_def fresh_def)
  show "retry_loop erroring (ObjectIdQuery 1 150) 0 (fresh []) =
     \<lparr>all_features = [], successful = 0, failed = 1,
      events = [Request (ObjectIdQuery 1 150), Sleep 1, Request (ObjectIdQuery 1 150), Sleep 1,
                Request (ObjectIdQuery 1 150)]\<rparr>"
    unfolding retry_loop_documented numeral_3_eq_3
    by (simp add: erroring_def retryable_def backoff_def fresh_def)
  show "retry_loop net q 0 a = documented_retry 3 net q a"
    by (rule retry_loop_documented)
  show "fetch_state net fips_code a = documented_retry 1 net (StateQuery fips_code) a"
    by (simp only: fetch_state_documented One_nat_def)
  have "length (filter (\<lambda>out. out \<noteq> []) (batch_outcomes net (events a) rs)) +
        length (filter (\<lambda>out. out = []) (batch_outcomes net (events a) rs)) = length rs"
    using sum_length_filter_compl [of "\<lambda>out. out \<noteq> []" "batch_outcomes net (events a) rs"]
    by (simp add: length_batch_outcomes)
  then show "successful (fetch_batches net rs a) + failed (fetch_batches net rs a) =
     successful a + failed a + length rs"
    using fetch_batches_outcomes [of net rs a] by simp
  have "length (filter (\<lambda>out. out \<noteq> []) (state_outcomes net (events a) codes)) +
        length (filter (\<lambda>out. out = []) (state_outcomes net (events a) codes)) = length codes"
    using sum_length_filter_compl [of "\<lambda>out. out \<noteq> []" "state_outcomes net (events a) codes"]
    by (simp add: length_state_outcomes)
  then show "successful (fetch_states net codes a) + failed (fetch_states net codes a) =
     successful a + failed a + length codes"
    using fetch_states_outcomes [of net codes a] by simp
qed

lemma all_down_run:
  "load_counties_for_region all_down ''Southwest'' states_loaded =
     (False, states_loaded
        \<lparr>trace := [Request (StateQuery ''40''), Request (StateQuery ''48''),
                   Request (StateQuery ''35''), Request (StateQuery ''04''), Summary 0 4]\<rparr>)"
proof -
  have cached: "counties_by_region states_loaded ''Southwest'' = None"
    and st: "states_data states_loaded = Some southwest_states"
    and tr: "trace states_loaded = []"
    by (simp_all add: states_loaded_def)
  have a: "fetch_state all_down ''04'' (fetch_state all_down ''35''
              (fetch_state all_down ''48'' (fetch_state all_down ''40'' (fresh [])))) =
      \<lparr>all_features = [], successful = 0, failed = 4,
       events = [Request (StateQuery ''40''), Request (StateQuery ''48''),
                 Request (StateQuery ''35''), Request (StateQuery ''04'')]\<rparr>"
    by (simp add: fetch_state_def all_down_def fresh_def)
  show ?thesis
    using load_counties_for_region_unfold [of states_loaded "''Southwest''" southwest_states
        "[''40'', ''48'', ''35'', ''04'']" all_down] cached st southwest_codes
    by (simp add: a tr)
qed

text \<open>
  Claim C5 does not hold as stated: in the per-state batching a timeout marks the state
  failed after a single request, with no back-off and no second attempt, where the policy
  with 3 attempts sends three requests.
\<close>

theorem state_batch_not_retried:
  "events (fetch_state all_down ''48'' (fresh [])) = [Request (StateQuery ''48'')] \<and>
   failed (fetch_state all_down ''48'' (fresh [])) = 1 \<and>
   events (documented_retry 3 all_down (StateQuery ''48'') (fresh [])) =
     [Request (StateQuery ''48''), Sleep 2, Request (StateQuery ''48''), Sleep 2,
      Request (StateQuery ''48'')] \<and>
   load_counties_for_region all_down ''Southwest'' states_loaded =
     (False, states_loaded
        \<lparr>trace := [Request (StateQuery ''40''), Request (StateQuery ''48''),
                   Request (StateQuery ''35''), Request (StateQuery ''04''), Summary 0 4]\<rparr>)"
proof (intro conjI)
  show "events (fetch_state all_down ''48'' (fresh [])) = [Request (StateQuery ''48'')]"
    by (simp add: fetch_state_def all_down_def fresh_def)
  show "failed (fetch_state all_down ''48'' (fresh [])) = 1"
    by (simp add: fetch_state_def all_down_def fresh_def)
  show "events (documented_retry 3 all_down (StateQuery ''48'') (fresh [])) =
     [Request (StateQuery ''48''), Sleep 2, Request (StateQuery ''48''), Sleep 2,
      Request (StateQuery ''48'')]"
    by (simp add: numeral_3_eq_3 all_down_def retryable_def backoff_def fresh_def)
  show "load_counties_for_region all_down ''Southwest'' states_loaded =
     (False, states_loaded
        \<lparr>trace := [Request (StateQuery ''40''), Request (StateQuery ''48''),
                   Request (StateQuery ''35''), Request (StateQuery ''04''), Summary 0 4]\<rparr>)"
    by (rule all_down_run)
qed


lemma load_counties_for_region_cases:
  assumes "load_counties_for_region net region m = (ok, m')"
  shows "(\<exists>cached. counties_by_region m region = Some cached \<and> ok \<and>
            m' = m\<lparr>counties_data := Some cached, current_region := Some region\<rparr>) \<or>
         (counties_by_region m region = None \<and> \<not> ok \<and> heap m' = heap m \<and>
            counties_by_region m' = counties_by_region m \<and> counties_data m' = counties_data m) \<or>
         (counties_by_region m region = None \<and> ok \<and>
            (\<exists>states a collection. states_data m = Some states \<and>
               state_fips_codes states (get_states_in_region region) \<noteq> [] \<and>
               a = fetch_states net (state_fips_codes states (get_states_in_region region)) (fresh (trace m)) \<and>
               all_features a \<noteq> [] \<and>
               convert_to_geojson (all_features a) = Inr collection \<and>
               m' = m\<lparr>counties_data := Some (length (heap m)),
                       counties_by_region := (counties_by_region m)(region \<mapsto> length (heap m)),
                       current_region := Some region,
                       heap := heap m @ [collection],
                       trace := events a @ [Summary (successful a) (failed a)]\<rparr>))"
  using assms
  by (auto simp: load_counties_for_region_def fresh_def Let_def
           split: option.splits if_splits sum.splits)

lemma fetch_states_fresh:
  "all_features (fetch_states net codes (fresh evs)) = concat (state_outcomes net evs codes)"
  using fetch_states_outcomes [of net codes "fresh evs"] by (simp add: fresh_def)

lemma requests_of_states:
  "filter is_request (map (\<lambda>c. Request (StateQuery c)) codes) = map (\<lambda>c. Request (StateQuery c)) codes"
  by (induction codes) (simp_all add: is_request_def)


text \<open>
  Claim C7. When the first load of a region key that is not yet cached succeeds, it sends
  one request for each state of the region, stores the converted collection under the key
  and makes it the current \<open>counties_data\<close>; a second load of the same key, whatever
  the service would answer, succeeds and leaves the whole state as it is: it sends no
  request, creates no collection, and \<open>counties_data\<close> still refers to the very
  collection the first load stored.
\<close>

theorem region_cache_idempotent:
  "counties_by_region m region = None \<and> load_counties_for_region net region m = (True, m1) \<longrightarrow>
     (\<exists>states ref.
        states_data m = Some states \<and>
        state_fips_codes states (get_states_in_region region) \<noteq> [] \<and>
        filter is_request (trace m1) =
          filter is_request (trace m) @
          map (\<lambda>c. Request (StateQuery c)) (state_fips_codes states (get_states_in_region region)) \<and>
        counties_by_region m1 region = Some ref \<and> counties_data m1 = Some ref \<and>
        convert_to_geojson
          (concat (state_outcomes net (trace m) (state_fips_codes states (get_states_in_region region)))) =
          Inr (heap m1 ! ref)) \<and>
     load_counties_for_region net' region m1 = (True, m1)"
proof (rule impI)
  assume h: "counties_by_region m region = None \<and> load_counties_for_region net region m = (True, m1)"
  then have miss: "counties_by_region m region = None"
    and run: "load_counties_for_region net region m = (True, m1)" by auto
  from load_counties_for_region_cases [OF run] miss
  obtain states a collection where st: "states_data m = Some states"
    and codes: "state_fips_codes states (get_states_in_region region) \<noteq> []"
    and a: "a = fetch_states net (state_fips_codes states (get_states_in_region region)) (fresh (trace m))"
    and conv: "convert_to_geojson (all_features a) = Inr collection"
    and m1: "m1 = m\<lparr>counties_data := Some (length (heap m)),
                       counties_by_region := (counties_by_region m)(region \<mapsto> length (heap m)),
                       current_region := Some region,
                       heap := heap m @ [collection],
                       trace := events a @ [Summary (successful a) (failed a)]\<rparr>"
    by auto
  let ?codes = "state_fips_codes states (get_states_in_region region)"
  have outs: "all_features a = concat (state_outcomes net (trace m) ?codes)"
    unfolding a by (rule fetch_states_fresh)
  have ev: "events a = trace m @ map (\<lambda>c. Request (StateQuery c)) ?codes"
    unfolding a by (simp add: events_fetch_states)
  have reqs: "filter is_request (trace m1) =
      filter is_request (trace m) @ map (\<lambda>c. Request (StateQuery c)) ?codes"
    by (simp add: m1 ev requests_of_states) (simp add: is_request_def)
  have first: "\<exists>states ref.
        states_data m = Some states \<and>
        state_fips_codes states (get_states_in_region region) \<noteq> [] \<and>
        filter is_request (trace m1) =
          filter is_request (trace m) @
          map (\<lambda>c. Request (StateQuery c)) (state_fips_codes states (get_states_in_region region)) \<and>
        counties_by_region m1 region = Some ref \<and> counties_data m1 = Some ref \<and>
        convert_to_geojson
          (concat (state_outcomes net (trace m) (state_fips_codes states (get_states_in_region region)))) =
          Inr (heap m1 ! ref)"
    using st codes reqs outs conv
    by (intro exI [of _ states] exI [of _ "length (heap m)"]) (simp add: m1)
  have second: "load_counties_for_region net' region m1 = (True, m1)"
    by (simp add: load_counties_for_region_def m1)
  from first second show "(\<exists>states ref.
        states_data m = Some states \<and>
        state_fips_codes states (get_states_in_region region) \<noteq> [] \<and>
        filter is_request (trace m1) =
          filter is_request (trace m) @
          map (\<lambda>c. Request (StateQuery c)) (state_fips_codes states (get_states_in_region region)) \<and>
        counties_by_region m1 region = Some ref \<and> counties_data m1 = Some ref \<and>
        convert_to_geojson
          (concat (state_outcomes net (trace m) (state_fips_codes states (get_states_in_region region)))) =
          Inr (heap m1 ! ref)) \<and>
     load_counties_for_region net' region m1 = (True, m1)" by (rule conjI)
qed


theorem region_cache_idempotent_witness:
  "counties_by_region states_loaded ''Southwest'' = None \<and>
   fst (load_counties_for_region texas_down ''Southwest'' states_loaded) \<and>
   filter is_request (trace (snd (load_counties_for_region texas_down ''Southwest'' states_loaded))) =
     [Request (StateQuery ''40''), Request (StateQuery ''48''),
      Request (StateQuery ''35''), Request (StateQuery ''04'')] \<and>
   load_counties_for_region all_down ''Southwest''
       (snd (load_counties_for_region texas_down ''Southwest'' states_loaded)) =
     (True, snd (load_counties_for_region texas_down ''Southwest'' states_loaded))"
proof -
  let ?R = "load_counties_for_region texas_down ''Southwest'' states_loaded"
  have hyp: "counties_by_region states_loaded ''Southwest'' = None \<and> ?R = (True, snd ?R)"
    by (simp add: southwest_run) (simp add: states_loaded_def)
  note twice = region_cache_idempotent
      [of states_loaded "''Southwest''" texas_down "snd ?R" all_down, rule_format, OF hyp]
  have reqs: "filter is_request (trace (snd ?R)) =
     [Request (StateQuery ''40''), Request (StateQuery ''48''),
      Request (StateQuery ''35''), Request (StateQuery ''04'')]"
    by (simp add: southwest_run is_request_def)
  show ?thesis using twice hyp reqs by (simp add: southwest_run)
qed

end
